theory Spec2Isabelle
  imports Complex_Main "HOL-Library.Signed_Division"
begin

section \<open>Compile-time rational numbers\<close>

text \<open>
  A tick period is a \<^verbatim>\<open>std::ratio<N, D>\<close>. Its static members \<^verbatim>\<open>num\<close> and \<^verbatim>\<open>den\<close>
  are the numerator and the denominator in lowest terms, the sign carried by the numerator.
  The comparison templates of \<^verbatim>\<open>process_timing.hpp\<close> read these two members only.
\<close>

record ratio =
  num :: int
  den :: int

definition std_ratio :: "int \<Rightarrow> int \<Rightarrow> ratio" where
  "std_ratio N D = \<lparr>num = sgn N * sgn D * (\<bar>N\<bar> div gcd N D), den = \<bar>D\<bar> div gcd N D\<rparr>"

text \<open>
  The members of a ratio and every product of two of them are of type \<^verbatim>\<open>intmax_t\<close>, the
  signed integer of 64 bits. A value outside its range does not exist; a product that leaves
  the range is kept modulo \<open>2 ^ 64\<close>, in two's complement.
\<close>

definition INTMAX_MIN :: int where
  "INTMAX_MIN = - (2 ^ 63)"

definition INTMAX_MAX :: int where
  "INTMAX_MAX = 2 ^ 63 - 1"

definition representable :: "int \<Rightarrow> bool" where
  "representable x = (INTMAX_MIN \<le> x \<and> x \<le> INTMAX_MAX)"

definition intmax_wrap :: "int \<Rightarrow> int" where
  "intmax_wrap x = (x + 2 ^ 63) mod 2 ^ 64 - 2 ^ 63"

text \<open>
  \<^verbatim>\<open>ratio_equal\<close> and \<^verbatim>\<open>ratio_not_equal\<close> are aliases of the standard templates, which compare
  the reduced members. The other four are the header's own: \<^verbatim>\<open>ratio_less\<close> cross-multiplies,
  the rest negate or swap it. The header multiplies the \<^verbatim>\<open>intmax_t\<close> members as they are,
  with no guard against overflow (the standard \<^verbatim>\<open>std::ratio_less\<close>, which it replaces, has
  one): the two sides of the comparison are the wrapped products.
\<close>

definition ratio_equal :: "ratio \<Rightarrow> ratio \<Rightarrow> bool" where
  "ratio_equal R1 R2 = (num R1 = num R2 \<and> den R1 = den R2)"

definition ratio_not_equal :: "ratio \<Rightarrow> ratio \<Rightarrow> bool" where
  "ratio_not_equal R1 R2 = (\<not> ratio_equal R1 R2)"

definition ratio_less :: "ratio \<Rightarrow> ratio \<Rightarrow> bool" where
  "ratio_less R1 R2 = (intmax_wrap (num R1 * den R2) < intmax_wrap (num R2 * den R1))"

definition ratio_less_equal :: "ratio \<Rightarrow> ratio \<Rightarrow> bool" where
  "ratio_less_equal R1 R2 = (\<not> ratio_less R2 R1)"

definition ratio_greater :: "ratio \<Rightarrow> ratio \<Rightarrow> bool" where
  "ratio_greater R1 R2 = ratio_less R2 R1"

definition ratio_greater_equal :: "ratio \<Rightarrow> ratio \<Rightarrow> bool" where
  "ratio_greater_equal R1 R2 = (\<not> ratio_less R1 R2)"

text \<open>The rational number that the two members of a ratio stand for.\<close>

definition ratio_value :: "ratio \<Rightarrow> rat" where
  "ratio_value R = of_int (num R) / of_int (den R)"

text \<open>The two products that a comparison of \<open>R1\<close> with \<open>R2\<close> computes are in range.\<close>

definition products_fit :: "ratio \<Rightarrow> ratio \<Rightarrow> bool" where
  "products_fit R1 R2 = (representable (num R1 * den R2) \<and> representable (num R2 * den R1))"

section \<open>Durations\<close>

text \<open>
  A \<^verbatim>\<open>std::chrono::duration<Rep, Period>\<close> is a count of ticks; the period is part of its
  type. The embedding fixes \<^verbatim>\<open>Rep\<close> to the 64-bit signed integer, which is the representation
  of \<^verbatim>\<open>std::chrono::nanoseconds\<close> (the default template argument of the class) and, on the
  LP64 platforms, of \<^verbatim>\<open>hours\<close> and hence of \<^verbatim>\<open>days\<close>; the period stays a parameter.
  Floating-point representations are outside the embedding.

  Two things can go wrong with integers and both are results of the model:
  \<^item> \<open>IllFormed\<close>: the instantiation does not compile (a \<^verbatim>\<open>ratio_divide\<close> whose result does
    not fit \<^verbatim>\<open>intmax_t\<close>, or an implicit conversion between durations that would truncate);
  \<^item> \<open>Overflow\<close>: a signed 64-bit operation leaves its range, which is undefined behaviour.
\<close>

datatype error = IllFormed | Overflow

definition checked :: "int \<Rightarrow> error + int" where
  "checked x = (if representable x then Inr x else Inl Overflow)"

definition and_then :: "error + 'a \<Rightarrow> ('a \<Rightarrow> error + 'b) \<Rightarrow> error + 'b" where
  "and_then x f = (case x of Inl e \<Rightarrow> Inl e | Inr v \<Rightarrow> f v)"

text \<open>\<^verbatim>\<open>std::ratio_divide<R1, R2>\<close>: the quotient in lowest terms, or no program at all.\<close>

definition ratio_divide :: "ratio \<Rightarrow> ratio \<Rightarrow> error + ratio" where
  "ratio_divide R1 R2 =
     (if num R2 = 0 then Inl IllFormed
      else let r = std_ratio (num R1 * den R2) (den R1 * num R2)
           in if representable (num r) \<and> representable (den r) then Inr r else Inl IllFormed)"

text \<open>
  \<^verbatim>\<open>duration_cast<duration<Rep, To>>(duration<Rep, From>(c))\<close>, with the four cases of the
  conversion factor \<^verbatim>\<open>CF = ratio_divide<From, To>\<close>; \<^verbatim>\<open>/\<close> truncates towards zero.
\<close>

definition duration_cast :: "ratio \<Rightarrow> ratio \<Rightarrow> int \<Rightarrow> error + int" where
  "duration_cast To From c =
     and_then (ratio_divide From To) (\<lambda>cf.
       if num cf = 1 \<and> den cf = 1 then Inr c
       else if den cf = 1 then checked (c * num cf)
       else if num cf = 1 then Inr (c sdiv den cf)
       else and_then (checked (c * num cf)) (\<lambda>x. Inr (x sdiv den cf)))"

text \<open>
  The converting constructor of \<^verbatim>\<open>duration\<close>: for integer representations it exists only
  when the conversion factor is a whole number, so that no precision is lost.
\<close>

definition duration_convert :: "ratio \<Rightarrow> ratio \<Rightarrow> int \<Rightarrow> error + int" where
  "duration_convert To From c =
     and_then (ratio_divide From To) (\<lambda>cf.
       if den cf = 1 then duration_cast To From c else Inl IllFormed)"

text \<open>
  \<^verbatim>\<open>duration -= x\<close> where \<^verbatim>\<open>duration\<close> has period \<open>Period\<close> and \<open>x\<close> period \<open>U\<close>: the
  argument is converted to the type of the left-hand side, then the counts are subtracted.
\<close>

definition minus_assign :: "ratio \<Rightarrow> int \<Rightarrow> ratio \<Rightarrow> int \<Rightarrow> error + int" where
  "minus_assign Period c U x = and_then (duration_convert Period U x) (\<lambda>y. checked (c - y))"

definition days_period :: ratio where
  "days_period = std_ratio 86400 1"

definition hours_period :: ratio where
  "hours_period = std_ratio 3600 1"

definition minutes_period :: ratio where
  "minutes_period = std_ratio 60 1"

definition seconds_period :: ratio where
  "seconds_period = std_ratio 1 1"

definition milliseconds_period :: ratio where
  "milliseconds_period = std_ratio 1 1000"

definition microseconds_period :: ratio where
  "microseconds_period = std_ratio 1 1000000"

definition nanoseconds_period :: ratio where
  "nanoseconds_period = std_ratio 1 1000000000"

text \<open>
  The period of a \<^verbatim>\<open>duration\<close> is a \<^verbatim>\<open>std::ratio\<close> with a positive numerator: its members
  are positive and coprime.
\<close>

definition is_period :: "ratio \<Rightarrow> bool" where
  "is_period P = (0 < num P \<and> 0 < den P \<and> gcd (num P) (den P) = 1)"

section \<open>Splitting a duration\<close>

record TimeElements =
  d :: int
  h :: int
  m :: int
  s :: int
  ms :: int
  us :: int
  ns :: int

definition SplitTimeElements :: "ratio \<Rightarrow> int \<Rightarrow> error + TimeElements" where
  "SplitTimeElements Period duration =
     and_then (duration_cast days_period Period duration) (\<lambda>te_d.
     and_then (minus_assign Period duration days_period te_d) (\<lambda>duration.
     and_then (duration_cast hours_period Period duration) (\<lambda>te_h.
     and_then (minus_assign Period duration hours_period te_h) (\<lambda>duration.
     and_then (duration_cast minutes_period Period duration) (\<lambda>te_m.
     and_then (minus_assign Period duration minutes_period te_m) (\<lambda>duration.
     and_then (duration_cast seconds_period Period duration) (\<lambda>te_s.
     and_then (minus_assign Period duration seconds_period te_s) (\<lambda>duration.
     and_then (duration_cast milliseconds_period Period duration) (\<lambda>te_ms.
     and_then (minus_assign Period duration milliseconds_period te_ms) (\<lambda>duration.
     and_then (duration_cast microseconds_period Period duration) (\<lambda>te_us.
     and_then (minus_assign Period duration microseconds_period te_us) (\<lambda>duration.
     and_then (duration_cast nanoseconds_period Period duration) (\<lambda>te_ns.
     Inr \<lparr>d = te_d, h = te_h, m = te_m, s = te_s, ms = te_ms, us = te_us, ns = te_ns\<rparr>
     )))))))))))))"

text \<open>
  The instantiation of \<^verbatim>\<open>SplitTimeElements\<close> at a period compiles when the seven casts and
  the six implicit conversions of its body do.
\<close>

definition castable :: "ratio \<Rightarrow> ratio \<Rightarrow> bool" where
  "castable To From = (case ratio_divide From To of Inl e \<Rightarrow> False | Inr cf \<Rightarrow> True)"

definition convertible :: "ratio \<Rightarrow> ratio \<Rightarrow> bool" where
  "convertible To From = (case ratio_divide From To of Inl e \<Rightarrow> False | Inr cf \<Rightarrow> den cf = 1)"

definition SplitTimeElements_compiles :: "ratio \<Rightarrow> bool" where
  "SplitTimeElements_compiles Period =
     (is_period Period \<and>
      castable days_period Period \<and> convertible Period days_period \<and>
      castable hours_period Period \<and> convertible Period hours_period \<and>
      castable minutes_period Period \<and> convertible Period minutes_period \<and>
      castable seconds_period Period \<and> convertible Period seconds_period \<and>
      castable milliseconds_period Period \<and> convertible Period milliseconds_period \<and>
      castable microseconds_period Period \<and> convertible Period microseconds_period \<and>
      castable nanoseconds_period Period)"

text \<open>The value of a \<^verbatim>\<open>TimeElements\<close> in nanoseconds: each field times the length of its unit.\<close>

definition reassemble_ns :: "TimeElements \<Rightarrow> int" where
  "reassemble_ns te =
     d te * 86400000000000 + h te * 3600000000000 + m te * 60000000000 + s te * 1000000000 +
     ms te * 1000000 + us te * 1000 + ns te"

section \<open>Rendering\<close>

text \<open>
  Decimal output of an integer by \<^verbatim>\<open>operator<<\<close>. With a field width and the default
  adjustment the fill characters go to the left of the text, sign included; the width is
  reset by every insertion, so the labels are never padded.
\<close>

fun digits :: "nat \<Rightarrow> string" where
  "digits n = (if n < 10 then [''0123456789'' ! n] else digits (n div 10) @ [''0123456789'' ! (n mod 10)])"

declare digits.simps [simp del]

definition show_int :: "int \<Rightarrow> string" where
  "show_int n = (if n < 0 then CHR ''-'' # digits (nat (- n)) else digits (nat n))"

definition put_int :: "nat \<Rightarrow> char \<Rightarrow> int \<Rightarrow> string" where
  "put_int width fill n = replicate (width - length (show_int n)) fill @ show_int n"

text \<open>
  The content of the \<^verbatim>\<open>ostringstream\<close> is kept as the list of the texts inserted so far;
  \<^verbatim>\<open>stream.str()\<close> is their concatenation.
\<close>

definition TimeElementsToString_stream :: "ratio \<Rightarrow> TimeElements \<Rightarrow> string list" where
  "TimeElementsToString_stream Period timeElements =
     (let stream = [];
          activate = False;
          activate = (if 0 < d timeElements then True else activate);
          stream = (if ratio_less_equal Period days_period \<and> activate
                    then stream @ [put_int 0 CHR '' '' (d timeElements), ''d.''] else stream);
          activate = (if 0 < h timeElements then True else activate);
          stream = (if ratio_less_equal Period hours_period \<and> activate
                    then stream @ [put_int 2 CHR ''0'' (h timeElements), ''h.''] else stream);
          activate = (if 0 < m timeElements then True else activate);
          stream = (if ratio_less_equal Period minutes_period \<and> activate
                    then stream @ [put_int 2 CHR ''0'' (m timeElements), ''m.''] else stream);
          activate = (if 0 < s timeElements then True else activate);
          stream = (if ratio_less_equal Period seconds_period \<and> activate
                    then stream @ [put_int 2 CHR ''0'' (s timeElements), ''s.''] else stream);
          activate = (if 0 < ms timeElements then True else activate);
          stream = (if ratio_less_equal Period milliseconds_period \<and> activate
                    then stream @ [put_int 3 CHR ''0'' (ms timeElements), ''ms.''] else stream);
          activate = (if 0 < us timeElements then True else activate);
          stream = (if ratio_less_equal Period microseconds_period \<and> activate
                    then stream @ [put_int 3 CHR ''0'' (us timeElements), ''us.''] else stream);
          activate = (if 0 < ns timeElements then True else activate);
          stream = (if ratio_less_equal Period nanoseconds_period \<and> activate
                    then stream @ [put_int 3 CHR ''0'' (ns timeElements), ''ns.''] else stream)
      in stream)"

definition TimeElementsToString :: "ratio \<Rightarrow> TimeElements \<Rightarrow> string" where
  "TimeElementsToString Period timeElements = concat (TimeElementsToString_stream Period timeElements)"

definition TimeToString :: "ratio \<Rightarrow> int \<Rightarrow> error + string" where
  "TimeToString Period duration =
     and_then (SplitTimeElements Period duration) (\<lambda>timeElements.
       Inr (TimeElementsToString Period timeElements))"

text \<open>The seven units in the order of the code, with what each block of it reads and writes.\<close>

datatype time_unit =
  Days | Hours | Minutes | Seconds | Milliseconds | Microseconds | Nanoseconds

definition all_units :: "time_unit list" where
  "all_units = [Days, Hours, Minutes, Seconds, Milliseconds, Microseconds, Nanoseconds]"

fun unit_index :: "time_unit \<Rightarrow> nat" where
  "unit_index Days = 0"
| "unit_index Hours = 1"
| "unit_index Minutes = 2"
| "unit_index Seconds = 3"
| "unit_index Milliseconds = 4"
| "unit_index Microseconds = 5"
| "unit_index Nanoseconds = 6"

fun unit_period :: "time_unit \<Rightarrow> ratio" where
  "unit_period Days = days_period"
| "unit_period Hours = hours_period"
| "unit_period Minutes = minutes_period"
| "unit_period Seconds = seconds_period"
| "unit_period Milliseconds = milliseconds_period"
| "unit_period Microseconds = microseconds_period"
| "unit_period Nanoseconds = nanoseconds_period"

fun unit_count :: "TimeElements \<Rightarrow> time_unit \<Rightarrow> int" where
  "unit_count te Days = d te"
| "unit_count te Hours = h te"
| "unit_count te Minutes = m te"
| "unit_count te Seconds = s te"
| "unit_count te Milliseconds = ms te"
| "unit_count te Microseconds = us te"
| "unit_count te Nanoseconds = ns te"

fun unit_text :: "TimeElements \<Rightarrow> time_unit \<Rightarrow> string" where
  "unit_text te Days = put_int 0 CHR '' '' (d te)"
| "unit_text te Hours = put_int 2 CHR ''0'' (h te)"
| "unit_text te Minutes = put_int 2 CHR ''0'' (m te)"
| "unit_text te Seconds = put_int 2 CHR ''0'' (s te)"
| "unit_text te Milliseconds = put_int 3 CHR ''0'' (ms te)"
| "unit_text te Microseconds = put_int 3 CHR ''0'' (us te)"
| "unit_text te Nanoseconds = put_int 3 CHR ''0'' (ns te)"

fun unit_label :: "time_unit \<Rightarrow> string" where
  "unit_label Days = ''d.''"
| "unit_label Hours = ''h.''"
| "unit_label Minutes = ''m.''"
| "unit_label Seconds = ''s.''"
| "unit_label Milliseconds = ''ms.''"
| "unit_label Microseconds = ''us.''"
| "unit_label Nanoseconds = ''ns.''"

text \<open>
  A unit is printed when its label was inserted into the stream; it is printed with its
  count when the text of the count, padded as the code asks, was inserted right before.
\<close>

definition printed :: "ratio \<Rightarrow> TimeElements \<Rightarrow> time_unit \<Rightarrow> bool" where
  "printed Period te u = (unit_label u \<in> set (TimeElementsToString_stream Period te))"

definition printed_with_count :: "ratio \<Rightarrow> TimeElements \<Rightarrow> time_unit \<Rightarrow> bool" where
  "printed_with_count Period te u =
     ((unit_text te u, unit_label u) \<in>
        set (zip (TimeElementsToString_stream Period te) (tl (TimeElementsToString_stream Period te))))"

text \<open>
  The activation flag is set when the block of a unit runs: the unit itself or one before it
  in the order of the code has a count greater than zero.
\<close>

definition activated :: "TimeElements \<Rightarrow> time_unit \<Rightarrow> bool" where
  "activated te u = (\<exists>v \<in> set all_units. unit_index v \<le> unit_index u \<and> 0 < unit_count te v)"

text \<open>
  The same insertions, unit by unit: what one block of the code does to the activation flag
  and which texts it inserts.
\<close>

fun render :: "ratio \<Rightarrow> TimeElements \<Rightarrow> bool \<Rightarrow> time_unit list \<Rightarrow> string list" where
  "render Period te activate [] = []"
| "render Period te activate (u # rest) =
     (let activate = (if 0 < unit_count te u then True else activate)
      in (if ratio_less_equal Period (unit_period u) \<and> activate
          then [unit_text te u, unit_label u] else []) @ render Period te activate rest)"

section \<open>The stopwatch\<close>

text \<open>
  \<^verbatim>\<open>std::chrono::steady_clock\<close> is the sequence of the readings that the calls of
  \<^verbatim>\<open>now()\<close> return from here on, in nanoseconds; a call takes the first and leaves the rest.
  The clock is monotonic when the sequence never decreases.
  Every member function runs under the object's mutex; the embedding is the sequential
  behaviour of one call after another.
\<close>

type_synonym steady_clock = "nat \<Rightarrow> int"

definition now :: "steady_clock \<Rightarrow> int \<times> steady_clock" where
  "now clock = (clock 0, \<lambda>i. clock (Suc i))"

record ProcessTiming =
  ongoing :: bool
  startTime :: int
  endTime :: int

definition start :: "ProcessTiming \<Rightarrow> steady_clock \<Rightarrow> ProcessTiming \<times> steady_clock" where
  "start this clock =
     (case now clock of (t, clock) \<Rightarrow>
        (let this = this\<lparr>startTime := t\<rparr>;
             this = this\<lparr>endTime := startTime this\<rparr>;
             this = this\<lparr>ongoing := True\<rparr>
         in (this, clock)))"

definition stop :: "ProcessTiming \<Rightarrow> steady_clock \<Rightarrow> ProcessTiming \<times> steady_clock" where
  "stop this clock =
     (case now clock of (t, clock) \<Rightarrow>
        (let this = this\<lparr>endTime := t\<rparr>;
             this = this\<lparr>ongoing := False\<rparr>
         in (this, clock)))"

definition getStartTime :: "ProcessTiming \<Rightarrow> int" where
  "getStartTime this = startTime this"

definition getEndTime :: "ProcessTiming \<Rightarrow> steady_clock \<Rightarrow> int \<times> steady_clock" where
  "getEndTime this clock = (if ongoing this then now clock else (endTime this, clock))"

definition isRunning :: "ProcessTiming \<Rightarrow> bool" where
  "isRunning this = ongoing this"

definition elapsed :: "ratio \<Rightarrow> ProcessTiming \<Rightarrow> steady_clock \<Rightarrow> (error + int) \<times> steady_clock" where
  "elapsed Period this clock =
     (if ongoing this
      then (case now clock of (t, clock) \<Rightarrow>
              (and_then (checked (t - startTime this)) (duration_cast Period nanoseconds_period), clock))
      else (and_then (checked (endTime this - startTime this)) (duration_cast Period nanoseconds_period),
            clock))"

text \<open>
  The nanoseconds that \<^verbatim>\<open>elapsed()\<close> casts to the requested resolution: from the start to
  the next reading of the clock while running, from the start to the stored end otherwise.
\<close>

definition time_difference :: "ProcessTiming \<Rightarrow> steady_clock \<Rightarrow> int" where
  "time_difference this clock =
     (if ongoing this then fst (now clock) - startTime this else endTime this - startTime this)"

definition to_string :: "ratio \<Rightarrow> ProcessTiming \<Rightarrow> steady_clock \<Rightarrow> (error + string) \<times> steady_clock" where
  "to_string Period this clock =
     (case elapsed Period this clock of (duration, clock) \<Rightarrow>
        (and_then duration (TimeToString Period), clock))"

text \<open>
  The states of a stopwatch and of the clock that a program can reach from the clock
  \<open>clock0\<close>: the constructor calls \<^verbatim>\<open>start()\<close> on the uninitialised object, then the member
  functions are called in any order, and the clock may be read by other code in between.
\<close>

inductive reachable :: "steady_clock \<Rightarrow> ProcessTiming \<times> steady_clock \<Rightarrow> bool"
  for clock0 :: steady_clock where
  constructed: "reachable clock0 (start uninitialised clock0)"
| started: "reachable clock0 (this, clock) \<Longrightarrow> reachable clock0 (start this clock)"
| stopped: "reachable clock0 (this, clock) \<Longrightarrow> reachable clock0 (stop this clock)"
| asked_end: "reachable clock0 (this, clock) \<Longrightarrow> reachable clock0 (this, snd (getEndTime this clock))"
| asked_elapsed: "reachable clock0 (this, clock) \<Longrightarrow> reachable clock0 (this, snd (elapsed Period this clock))"
| asked_string: "reachable clock0 (this, clock) \<Longrightarrow> reachable clock0 (this, snd (to_string Period this clock))"
| clock_read: "reachable clock0 (this, clock) \<Longrightarrow> reachable clock0 (this, snd (now clock))"

section \<open>Ratios: the comparators and the rational order\<close>

lemma std_ratio_den_pos: "D \<noteq> 0 \<Longrightarrow> 0 < den (std_ratio N D)"
proof -
  assume D: "D \<noteq> 0"
  have g: "0 < gcd N D" using D by simp
  have "gcd N D dvd \<bar>D\<bar>" by simp
  then have "gcd N D \<le> \<bar>D\<bar>" using D by (intro zdvd_imp_le) auto
  then have "0 < \<bar>D\<bar> div gcd N D" using g by (simp add: pos_imp_zdiv_pos_iff)
  then show ?thesis by (simp add: std_ratio_def)
qed

lemma std_ratio_cross: "D \<noteq> 0 \<Longrightarrow> num (std_ratio N D) * D = N * den (std_ratio N D)"
proof -
  assume D: "D \<noteq> 0"
  obtain a where a: "\<bar>N\<bar> = gcd N D * a" by (meson dvd_def gcd_dvd1 dvd_abs_iff)
  obtain b where b: "\<bar>D\<bar> = gcd N D * b" by (meson dvd_def gcd_dvd2 dvd_abs_iff)
  have g: "gcd N D \<noteq> 0" using D by simp
  have na: "\<bar>N\<bar> div gcd N D = a" using a g by simp
  have nb: "\<bar>D\<bar> div gcd N D = b" using b g by simp
  have "sgn N * sgn D * a * D = sgn N * a * (sgn D * D)" by (simp add: ac_simps)
  also have "\<dots> = sgn N * a * \<bar>D\<bar>" by (simp add: abs_sgn mult.commute)
  also have "\<dots> = sgn N * a * (gcd N D * b)" using b by simp
  also have "\<dots> = sgn N * (gcd N D * a) * b" by (simp add: ac_simps)
  also have "\<dots> = sgn N * \<bar>N\<bar> * b" using a by simp
  also have "\<dots> = N * b" by (simp add: sgn_mult_abs)
  finally show ?thesis by (simp add: std_ratio_def na nb)
qed

lemma std_ratio_coprime: "D \<noteq> 0 \<Longrightarrow> coprime (num (std_ratio N D)) (den (std_ratio N D))"
proof -
  assume D: "D \<noteq> 0"
  have "coprime (\<bar>N\<bar> div gcd \<bar>N\<bar> \<bar>D\<bar>) (\<bar>D\<bar> div gcd \<bar>N\<bar> \<bar>D\<bar>)"
    using D by (intro div_gcd_coprime) simp
  then have c: "coprime (\<bar>N\<bar> div gcd N D) (\<bar>D\<bar> div gcd N D)" by simp
  have "coprime (sgn N * sgn D * (\<bar>N\<bar> div gcd N D)) (\<bar>D\<bar> div gcd N D)"
  proof (cases "N = 0")
    case True
    then show ?thesis using D by simp
  next
    case False
    then have "sgn N * sgn D = 1 \<or> sgn N * sgn D = - 1" using D by (auto simp: sgn_if)
    then show ?thesis
    proof
      assume "sgn N * sgn D = 1"
      then show ?thesis using c by (simp only: mult_1)
    next
      assume "sgn N * sgn D = - 1"
      then have "sgn N * sgn D * (\<bar>N\<bar> div gcd N D) = - (\<bar>N\<bar> div gcd N D)" by simp
      then show ?thesis using c by (simp only: coprime_minus_left_iff)
    qed
  qed
  then show ?thesis by (simp add: std_ratio_def)
qed

lemma reduced_unique:
  fixes a b c e :: int
  assumes "0 < b" "0 < e" "coprime a b" "coprime c e" "a * e = c * b"
  shows "a = c \<and> b = e"
proof -
  have "Fract a b = Fract c e" using assms by (simp add: eq_rat)
  then have "quotient_of (Fract a b) = quotient_of (Fract c e)" by simp
  then have "Rat.normalize (a, b) = Rat.normalize (c, e)" by (simp add: quotient_of_Fract)
  then show ?thesis using assms by (simp add: normalize_stable)
qed

text \<open>The rational number that a ratio stands for.\<close>

lemma std_ratio_value:
  "D \<noteq> 0 \<Longrightarrow> (of_int (num (std_ratio N D)) / of_int (den (std_ratio N D)) :: rat) = of_int N / of_int D"
proof -
  assume D: "D \<noteq> 0"
  have "den (std_ratio N D) \<noteq> 0" using std_ratio_den_pos [OF D, of N] by simp
  moreover have "(of_int (num (std_ratio N D)) * of_int D :: rat) = of_int N * of_int (den (std_ratio N D))"
    using std_ratio_cross [OF D, of N] by (metis of_int_mult)
  ultimately show ?thesis using D by (simp add: frac_eq_eq)
qed

lemma intmax_wrap_representable: "representable x \<Longrightarrow> intmax_wrap x = x"
proof -
  assume "representable x"
  then have "0 \<le> x + 2 ^ 63" "x + 2 ^ 63 < 2 ^ 64"
    by (simp_all add: representable_def INTMAX_MIN_def INTMAX_MAX_def)
  then have "(x + 2 ^ 63) mod 2 ^ 64 = x + 2 ^ 63" by (rule mod_pos_pos_trivial)
  then show ?thesis by (simp add: intmax_wrap_def)
qed

lemma ratio_less_exact:
  "representable (num R1 * den R2) \<Longrightarrow> representable (num R2 * den R1) \<Longrightarrow>
   ratio_less R1 R2 \<longleftrightarrow> num R1 * den R2 < num R2 * den R1"
  by (simp add: ratio_less_def intmax_wrap_representable)

lemma ratio_less_value:
  assumes "0 < den R1" "0 < den R2"
    and "representable (num R1 * den R2)" "representable (num R2 * den R1)"
  shows "ratio_less R1 R2 \<longleftrightarrow>
    (of_int (num R1) / of_int (den R1) :: rat) < of_int (num R2) / of_int (den R2)"
proof -
  have "(of_int (num R1) / of_int (den R1) :: rat) < of_int (num R2) / of_int (den R2)
        \<longleftrightarrow> (of_int (num R1) * of_int (den R2) :: rat) < of_int (num R2) * of_int (den R1)"
    using assms(1,2) by (simp add: divide_less_eq pos_less_divide_eq field_simps)
  also have "\<dots> \<longleftrightarrow> (of_int (num R1 * den R2) :: rat) < of_int (num R2 * den R1)" by simp
  also have "\<dots> \<longleftrightarrow> num R1 * den R2 < num R2 * den R1" by (rule of_int_less_iff)
  finally show ?thesis using ratio_less_exact [OF assms(3,4)] by simp
qed

lemma ratio_equal_value:
  assumes "0 < den R1" "0 < den R2" "coprime (num R1) (den R1)" "coprime (num R2) (den R2)"
  shows "ratio_equal R1 R2 \<longleftrightarrow> (of_int (num R1) / of_int (den R1) :: rat) = of_int (num R2) / of_int (den R2)"
proof -
  have "(of_int (num R1) / of_int (den R1) :: rat) = of_int (num R2) / of_int (den R2)
        \<longleftrightarrow> (of_int (num R1) * of_int (den R2) :: rat) = of_int (num R2) * of_int (den R1)"
    using assms by (simp add: frac_eq_eq)
  also have "\<dots> \<longleftrightarrow> (of_int (num R1 * den R2) :: rat) = of_int (num R2 * den R1)" by simp
  also have "\<dots> \<longleftrightarrow> num R1 * den R2 = num R2 * den R1" by (rule of_int_eq_iff)
  also have "\<dots> \<longleftrightarrow> num R1 = num R2 \<and> den R1 = den R2"
    using reduced_unique [OF assms(1,2,3,4)] by auto
  finally show ?thesis by (simp add: ratio_equal_def)
qed

text \<open>
  C6, as the code has it. For positive integers \<open>n1\<close>, \<open>d1\<close>, \<open>n2\<close>, \<open>d2\<close>, in lowest terms
  or not, such that the two cross-products of the reduced members fit \<^verbatim>\<open>intmax_t\<close>, the six
  comparators on \<^verbatim>\<open>ratio<n1, d1>\<close> and \<^verbatim>\<open>ratio<n2, d2>\<close> agree with the order of the rational
  numbers \<open>n1 / d1\<close> and \<open>n2 / d2\<close>: \<open>ratio_less\<close> holds exactly when \<open>n1 * d2 < n2 * d1\<close>,
  and the other five are what negating and swapping \<open>ratio_less\<close> gives.
\<close>

theorem ratio_comparators_agree:
  fixes n1 d1 n2 d2 :: int
  assumes "0 < n1" "0 < d1" "0 < n2" "0 < d2"
    and "representable (num (std_ratio n1 d1) * den (std_ratio n2 d2))"
    and "representable (num (std_ratio n2 d2) * den (std_ratio n1 d1))"
  shows "let P1 = std_ratio n1 d1; P2 = std_ratio n2 d2;
             q1 = (of_int n1 / of_int d1 :: rat); q2 = (of_int n2 / of_int d2 :: rat)
         in (ratio_less P1 P2 \<longleftrightarrow> n1 * d2 < n2 * d1) \<and>
            (ratio_less P1 P2 \<longleftrightarrow> q1 < q2) \<and>
            (ratio_equal P1 P2 \<longleftrightarrow> q1 = q2) \<and>
            (ratio_not_equal P1 P2 \<longleftrightarrow> q1 \<noteq> q2) \<and>
            (ratio_less_equal P1 P2 \<longleftrightarrow> q1 \<le> q2) \<and>
            (ratio_greater P1 P2 \<longleftrightarrow> q2 < q1) \<and>
            (ratio_greater_equal P1 P2 \<longleftrightarrow> q2 \<le> q1) \<and>
            (ratio_equal P1 P2 \<longleftrightarrow> \<not> ratio_less P1 P2 \<and> \<not> ratio_less P2 P1) \<and>
            (ratio_not_equal P1 P2 \<longleftrightarrow> ratio_less P1 P2 \<or> ratio_less P2 P1) \<and>
            (ratio_less_equal P1 P2 \<longleftrightarrow> \<not> ratio_less P2 P1) \<and>
            (ratio_greater P1 P2 \<longleftrightarrow> ratio_less P2 P1) \<and>
            (ratio_greater_equal P1 P2 \<longleftrightarrow> \<not> ratio_less P1 P2)"
proof -
  define P1 where "P1 = std_ratio n1 d1"
  define P2 where "P2 = std_ratio n2 d2"
  define q1 :: rat where "q1 = of_int n1 / of_int d1"
  define q2 :: rat where "q2 = of_int n2 / of_int d2"
  have d: "d1 \<noteq> 0" "d2 \<noteq> 0" using assms by simp_all
  have fit: "representable (num P1 * den P2)" "representable (num P2 * den P1)"
    unfolding P1_def P2_def by (rule assms(5), rule assms(6))
  have pos: "0 < den P1" "0 < den P2"
    unfolding P1_def P2_def using d by (simp_all add: std_ratio_den_pos)
  have cop: "coprime (num P1) (den P1)" "coprime (num P2) (den P2)"
    unfolding P1_def P2_def using d by (simp_all add: std_ratio_coprime)
  have v: "of_int (num P1) / of_int (den P1) = q1" "of_int (num P2) / of_int (den P2) = q2"
    unfolding P1_def P2_def q1_def q2_def using d by (simp_all add: std_ratio_value)
  have less12: "ratio_less P1 P2 \<longleftrightarrow> q1 < q2"
    using ratio_less_value [OF pos(1) pos(2) fit(1) fit(2)] v by simp
  have less21: "ratio_less P2 P1 \<longleftrightarrow> q2 < q1"
    using ratio_less_value [OF pos(2) pos(1) fit(2) fit(1)] v by simp
  have eq: "ratio_equal P1 P2 \<longleftrightarrow> q1 = q2"
    using ratio_equal_value [OF pos cop] v by simp
  have cross: "q1 < q2 \<longleftrightarrow> n1 * d2 < n2 * d1"
  proof -
    have "q1 < q2 \<longleftrightarrow> (of_int n1 * of_int d2 :: rat) < of_int n2 * of_int d1"
      unfolding q1_def q2_def using assms(1-4)
      by (simp add: divide_less_eq pos_less_divide_eq field_simps)
    also have "\<dots> \<longleftrightarrow> (of_int (n1 * d2) :: rat) < of_int (n2 * d1)" by simp
    also have "\<dots> \<longleftrightarrow> n1 * d2 < n2 * d1" by (rule of_int_less_iff)
    finally show ?thesis .
  qed
  have "(ratio_less P1 P2 \<longleftrightarrow> n1 * d2 < n2 * d1) \<and>
        (ratio_less P1 P2 \<longleftrightarrow> q1 < q2) \<and>
        (ratio_equal P1 P2 \<longleftrightarrow> q1 = q2) \<and>
        (ratio_not_equal P1 P2 \<longleftrightarrow> q1 \<noteq> q2) \<and>
        (ratio_less_equal P1 P2 \<longleftrightarrow> q1 \<le> q2) \<and>
        (ratio_greater P1 P2 \<longleftrightarrow> q2 < q1) \<and>
        (ratio_greater_equal P1 P2 \<longleftrightarrow> q2 \<le> q1) \<and>
        (ratio_equal P1 P2 \<longleftrightarrow> \<not> ratio_less P1 P2 \<and> \<not> ratio_less P2 P1) \<and>
        (ratio_not_equal P1 P2 \<longleftrightarrow> ratio_less P1 P2 \<or> ratio_less P2 P1) \<and>
        (ratio_less_equal P1 P2 \<longleftrightarrow> \<not> ratio_less P2 P1) \<and>
        (ratio_greater P1 P2 \<longleftrightarrow> ratio_less P2 P1) \<and>
        (ratio_greater_equal P1 P2 \<longleftrightarrow> \<not> ratio_less P1 P2)"
    unfolding ratio_not_equal_def ratio_less_equal_def ratio_greater_def ratio_greater_equal_def
      eq less12 less21 cross [symmetric]
    by auto
  then show ?thesis
    unfolding P1_def P2_def q1_def q2_def Let_def .
qed

theorem ratio_comparators_agree_witness:
  "(0::int) < 2 \<and> (0::int) < 4 \<and> (0::int) < 1 \<and>
   representable (num (std_ratio 2 4) * den (std_ratio 1 2)) \<and>
   representable (num (std_ratio 1 2) * den (std_ratio 2 4)) \<and>
   ratio_equal (std_ratio 2 4) (std_ratio 1 2) \<and>
   \<not> ratio_less (std_ratio 2 4) (std_ratio 1 2) \<and>
   ratio_less_equal (std_ratio 2 4) (std_ratio 1 2) \<and>
   ratio_greater_equal (std_ratio 2 4) (std_ratio 1 2) \<and>
   \<not> ratio_not_equal (std_ratio 2 4) (std_ratio 1 2) \<and>
   \<not> ratio_greater (std_ratio 2 4) (std_ratio 1 2)"
proof -
  have a: "representable (num (std_ratio 2 4) * den (std_ratio 1 2))" by code_simp
  have b: "representable (num (std_ratio 1 2) * den (std_ratio 2 4))" by code_simp
  show ?thesis
    using a b ratio_comparators_agree [of 2 4 1 2, OF _ _ _ _ a b] by (simp add: Let_def)
qed

text \<open>
  C6 as stated, for all positive integers, fails where a cross-product leaves \<^verbatim>\<open>intmax_t\<close>:
  \<open>3037000500 / 1\<close> is not less than \<open>1 / 3037000500\<close>, but the square of \<open>3037000500\<close>
  wraps to a negative number and \<open>ratio_less\<close> holds; \<open>ratio_equal\<close>, which does not
  multiply, is then no longer "neither is less".
\<close>

theorem ratio_less_wraps:
  "(0::int) < 3037000500 \<and> (0::int) < 1 \<and>
   ratio_less (std_ratio 3037000500 1) (std_ratio 1 3037000500) \<and>
   \<not> ((3037000500::int) * 3037000500 < 1 * 1) \<and>
   \<not> ratio_value (std_ratio 3037000500 1) < ratio_value (std_ratio 1 3037000500) \<and>
   \<not> ratio_greater_equal (std_ratio 3037000500 1) (std_ratio 1 3037000500)"
proof -
  have m: "num (std_ratio 3037000500 1) = 3037000500" "den (std_ratio 3037000500 1) = 1"
    "num (std_ratio 1 3037000500) = 1" "den (std_ratio 1 3037000500) = 3037000500"
    by (simp_all add: std_ratio_def)
  have less: "ratio_less (std_ratio 3037000500 1) (std_ratio 1 3037000500)"
    by code_simp
  have "\<not> ratio_value (std_ratio 3037000500 1) < ratio_value (std_ratio 1 3037000500)"
    by (simp add: ratio_value_def m)
  then show ?thesis using less by (simp add: ratio_greater_equal_def)
qed

section \<open>Rendering: the stream unit by unit\<close>

lemma if_append_right: "(if c then xs @ ys else xs) = xs @ (if c then ys else [])"
  by simp

lemma stream_render:
  "TimeElementsToString_stream Period te = render Period te False all_units"
  unfolding TimeElementsToString_stream_def all_units_def render.simps Let_def
    unit_count.simps unit_period.simps unit_text.simps unit_label.simps
  apply (simp only: if_append_right append_Nil split del: if_split)
  apply (simp only: append_assoc append_Nil2 split del: if_split)
  done

lemma render_inactive:
  "\<not> activate \<Longrightarrow> \<forall>u \<in> set units. unit_count te u \<le> 0 \<Longrightarrow> render Period te activate units = []"
  by (induction units) (simp_all add: Let_def)

lemma digit_char: "k < 10 \<Longrightarrow> ''0123456789'' ! k \<in> set ''0123456789''"
  by (rule nth_mem) simp

lemma digits_last: "digits n \<noteq> [] \<and> last (digits n) \<in> set ''0123456789''"
proof (cases "n < 10")
  case True
  then have "digits n = [''0123456789'' ! n]" by (subst digits.simps) simp
  then show ?thesis using digit_char [OF True] by (simp del: set_simps)
next
  case False
  then have "digits n = digits (n div 10) @ [''0123456789'' ! (n mod 10)]"
    by (subst digits.simps) simp
  moreover have "n mod 10 < 10" by simp
  ultimately show ?thesis using digit_char [of "n mod 10"] by (simp del: set_simps)
qed

lemma put_int_last: "put_int w f n \<noteq> [] \<and> last (put_int w f n) \<in> set ''0123456789''"
  using digits_last [of "nat n"] digits_last [of "nat (- n)"]
  by (simp add: put_int_def show_int_def del: set_simps)

lemma unit_text_not_label: "unit_text te u \<noteq> unit_label v"
proof
  assume e: "unit_text te u = unit_label v"
  have "last (unit_label v) = CHR ''.''" by (cases v) simp_all
  moreover have "last (unit_text te u) \<in> set ''0123456789''"
    by (cases u) (simp_all add: put_int_last del: set_simps)
  ultimately show False using e by simp
qed

lemma unit_label_inj: "unit_label u = unit_label v \<Longrightarrow> u = v"
  by (cases u; cases v) simp_all

lemma render_Cons:
  "render Period te activate (v # rest) =
     (if ratio_less_equal Period (unit_period v) \<and> (0 < unit_count te v \<or> activate)
      then [unit_text te v, unit_label v] else []) @
     render Period te (0 < unit_count te v \<or> activate) rest"
  by (cases "0 < unit_count te v") (simp_all add: Let_def)

lemma render_label:
  "unit_label u \<in> set (render Period te activate units) \<Longrightarrow>
   u \<in> set units \<and> ratio_less_equal Period (unit_period u)"
proof (induction units arbitrary: activate)
  case Nil
  then show ?case by simp
next
  case (Cons v rest)
  let ?seg = "if ratio_less_equal Period (unit_period v) \<and> (0 < unit_count te v \<or> activate)
      then [unit_text te v, unit_label v] else []"
  from Cons.prems have "unit_label u \<in> set ?seg \<or>
      unit_label u \<in> set (render Period te (0 < unit_count te v \<or> activate) rest)"
    by (simp only: render_Cons set_append Un_iff)
  then show ?case
  proof
    assume "unit_label u \<in> set ?seg"
    then have c: "ratio_less_equal Period (unit_period v)" and "unit_label u = unit_text te v \<or> unit_label u = unit_label v"
      by (simp_all split: if_splits)
    then have "u = v" using unit_text_not_label [of te v u] unit_label_inj [of u v] by auto
    then show ?thesis using c by simp
  next
    assume "unit_label u \<in> set (render Period te (0 < unit_count te v \<or> activate) rest)"
    then show ?thesis using Cons.IH by simp
  qed
qed

lemma render_active:
  "activate \<Longrightarrow> render Period te activate units =
     concat (map (\<lambda>u. if ratio_less_equal Period (unit_period u) then [unit_text te u, unit_label u] else []) units)"
  by (induction units) (simp_all add: render_Cons del: render.simps(2))

lemma render_split:
  "ratio_less_equal Period (unit_period u) \<Longrightarrow>
   activate \<or> (\<exists>v \<in> set pre. 0 < unit_count te v) \<or> 0 < unit_count te u \<Longrightarrow>
   \<exists>xs ys. render Period te activate (pre @ u # post) = xs @ [unit_text te u, unit_label u] @ ys"
proof (induction pre arbitrary: activate)
  case Nil
  then have "render Period te activate ([] @ u # post) =
      [] @ [unit_text te u, unit_label u] @ render Period te (0 < unit_count te u \<or> activate) post"
    by (auto simp: render_Cons simp del: render.simps(2))
  then show ?case by blast
next
  case (Cons v pre)
  have "(0 < unit_count te v \<or> activate) \<or> (\<exists>v \<in> set pre. 0 < unit_count te v) \<or> 0 < unit_count te u"
    using Cons.prems(2) by auto
  from Cons.IH [OF Cons.prems(1) this]
  obtain xs ys where "render Period te (0 < unit_count te v \<or> activate) (pre @ u # post) =
      xs @ [unit_text te u, unit_label u] @ ys" by blast
  then have "render Period te activate ((v # pre) @ u # post) =
      ((if ratio_less_equal Period (unit_period v) \<and> (0 < unit_count te v \<or> activate)
        then [unit_text te v, unit_label v] else []) @ xs) @ [unit_text te u, unit_label u] @ ys"
    by (simp add: render_Cons del: render.simps(2))
  then show ?case by blast
qed

lemma adjacent_in_zip: "(a, b) \<in> set (zip (xs @ [a, b] @ ys) (tl (xs @ [a, b] @ ys)))"
proof (induction xs)
  case Nil
  then show ?case by simp
next
  case (Cons x xs)
  then show ?case by (cases xs) auto
qed

lemma units_before:
  "unit_index v \<le> unit_index u \<Longrightarrow>
   \<exists>pre post. all_units = pre @ u # post \<and> (v = u \<or> v \<in> set pre)"
proof (cases u)
  case Days
  assume "unit_index v \<le> unit_index u"
  then have "v = u" using Days by (cases v) simp_all
  moreover have "all_units = [] @ u # [Hours, Minutes, Seconds, Milliseconds, Microseconds, Nanoseconds]"
    using Days by (simp add: all_units_def)
  ultimately show ?thesis by blast
next
  case Hours
  assume "unit_index v \<le> unit_index u"
  then have "v = u \<or> v \<in> set [Days]" using Hours by (cases v) simp_all
  moreover have "all_units = [Days] @ u # [Minutes, Seconds, Milliseconds, Microseconds, Nanoseconds]"
    using Hours by (simp add: all_units_def)
  ultimately show ?thesis by blast
next
  case Minutes
  assume "unit_index v \<le> unit_index u"
  then have "v = u \<or> v \<in> set [Days, Hours]" using Minutes by (cases v) simp_all
  moreover have "all_units = [Days, Hours] @ u # [Seconds, Milliseconds, Microseconds, Nanoseconds]"
    using Minutes by (simp add: all_units_def)
  ultimately show ?thesis by blast
next
  case Seconds
  assume "unit_index v \<le> unit_index u"
  then have "v = u \<or> v \<in> set [Days, Hours, Minutes]" using Seconds by (cases v) simp_all
  moreover have "all_units = [Days, Hours, Minutes] @ u # [Milliseconds, Microseconds, Nanoseconds]"
    using Seconds by (simp add: all_units_def)
  ultimately show ?thesis by blast
next
  case Milliseconds
  assume "unit_index v \<le> unit_index u"
  then have "v = u \<or> v \<in> set [Days, Hours, Minutes, Seconds]" using Milliseconds by (cases v) simp_all
  moreover have "all_units = [Days, Hours, Minutes, Seconds] @ u # [Microseconds, Nanoseconds]"
    using Milliseconds by (simp add: all_units_def)
  ultimately show ?thesis by blast
next
  case Microseconds
  assume "unit_index v \<le> unit_index u"
  then have "v = u \<or> v \<in> set [Days, Hours, Minutes, Seconds, Milliseconds]"
    using Microseconds by (cases v) simp_all
  moreover have "all_units = [Days, Hours, Minutes, Seconds, Milliseconds] @ u # [Nanoseconds]"
    using Microseconds by (simp add: all_units_def)
  ultimately show ?thesis by blast
next
  case Nanoseconds
  assume "unit_index v \<le> unit_index u"
  then have "v = u \<or> v \<in> set [Days, Hours, Minutes, Seconds, Milliseconds, Microseconds]"
    using Nanoseconds by (cases v) simp_all
  moreover have "all_units = [Days, Hours, Minutes, Seconds, Milliseconds, Microseconds] @ u # []"
    using Nanoseconds by (simp add: all_units_def)
  ultimately show ?thesis by blast
qed

lemma render_label_active:
  "unit_label u \<in> set (render Period te activate units) \<Longrightarrow>
   activate \<or> (\<exists>pre post. units = pre @ u # post \<and> (\<exists>v \<in> set (pre @ [u]). 0 < unit_count te v))"
proof (induction units arbitrary: activate)
  case Nil
  then show ?case by simp
next
  case (Cons w rest)
  let ?seg = "if ratio_less_equal Period (unit_period w) \<and> (0 < unit_count te w \<or> activate)
      then [unit_text te w, unit_label w] else []"
  from Cons.prems have "unit_label u \<in> set ?seg \<or>
      unit_label u \<in> set (render Period te (0 < unit_count te w \<or> activate) rest)"
    by (simp only: render_Cons set_append Un_iff)
  then show ?case
  proof
    assume "unit_label u \<in> set ?seg"
    then have act: "0 < unit_count te w \<or> activate"
      and "unit_label u = unit_text te w \<or> unit_label u = unit_label w"
      by (simp_all split: if_splits)
    then have "u = w" using unit_text_not_label [of te w u] unit_label_inj [of u w] by auto
    show ?thesis
    proof (cases activate)
      case True
      then show ?thesis by simp
    next
      case False
      then have "0 < unit_count te u" using act \<open>u = w\<close> by simp
      moreover have "w # rest = [] @ u # rest" using \<open>u = w\<close> by simp
      ultimately have "\<exists>pre post. w # rest = pre @ u # post \<and>
          (\<exists>v \<in> set (pre @ [u]). 0 < unit_count te v)"
        by (intro exI [of _ "[]"] exI [of _ rest]) simp
      then show ?thesis by simp
    qed
  next
    assume later: "unit_label u \<in> set (render Period te (0 < unit_count te w \<or> activate) rest)"
    from Cons.IH [OF this] consider "activate" | "0 < unit_count te w"
      | pre post where "rest = pre @ u # post" "\<exists>v \<in> set (pre @ [u]). 0 < unit_count te v"
      by blast
    then show ?thesis
    proof cases
      case 1
      then show ?thesis by simp
    next
      case 2
      from later have "u \<in> set rest" using render_label by blast
      then obtain pre post where "rest = pre @ u # post" by (meson split_list)
      then have "w # rest = (w # pre) @ u # post" by simp
      moreover have "\<exists>v \<in> set ((w # pre) @ [u]). 0 < unit_count te v" using 2 by simp
      ultimately show ?thesis by blast
    next
      case 3
      then have "w # rest = (w # pre) @ u # post" by simp
      moreover have "\<exists>v \<in> set ((w # pre) @ [u]). 0 < unit_count te v" using 3(2) by auto
      ultimately show ?thesis by blast
    qed
  qed
qed

lemma units_ordered:
  assumes "all_units = pre @ u # post" "v \<in> set pre"
  shows "unit_index v < unit_index u"
proof -
  have "sorted_wrt (\<lambda>a b. unit_index a < unit_index b) all_units"
    by (simp add: all_units_def)
  then have "sorted_wrt (\<lambda>a b. unit_index a < unit_index b) (pre @ u # post)"
    by (simp only: assms(1))
  then show ?thesis using assms(2) by (auto simp: sorted_wrt_append)
qed

lemma in_all_units: "u \<in> set all_units"
  by (cases u) (simp_all add: all_units_def)

lemma zip_tl_right: "(a, b) \<in> set (zip xs (tl xs)) \<Longrightarrow> b \<in> set xs"
proof -
  assume "(a, b) \<in> set (zip xs (tl xs))"
  then have "b \<in> set (tl xs)" by (rule set_zip_rightD)
  then show ?thesis by (cases xs) simp_all
qed

text \<open>Which units the code prints: those that pass its candidate test once the flag is set.\<close>

lemma printed_iff:
  "printed Period te u \<longleftrightarrow> ratio_less_equal Period (unit_period u) \<and> activated te u"
proof
  assume p: "printed Period te u"
  then have lab: "unit_label u \<in> set (render Period te False all_units)"
    by (simp add: printed_def stream_render)
  from render_label [OF lab] have c: "ratio_less_equal Period (unit_period u)" by simp
  from render_label_active [OF lab] obtain pre post v
    where split: "all_units = pre @ u # post" and v: "v \<in> set (pre @ [u])" "0 < unit_count te v"
    by blast
  have "unit_index v \<le> unit_index u"
  proof (cases "v = u")
    case True
    then show ?thesis by simp
  next
    case False
    then have "v \<in> set pre" using v(1) by simp
    from units_ordered [OF split this] show ?thesis by simp
  qed
  then have "activated te u" using v(2) in_all_units [of v] by (auto simp: activated_def)
  then show "ratio_less_equal Period (unit_period u) \<and> activated te u" using c by simp
next
  assume a: "ratio_less_equal Period (unit_period u) \<and> activated te u"
  then obtain v where v: "unit_index v \<le> unit_index u" "0 < unit_count te v"
    by (auto simp: activated_def)
  from units_before [OF v(1)] obtain pre post
    where split: "all_units = pre @ u # post" and w: "v = u \<or> v \<in> set pre" by blast
  have "False \<or> (\<exists>w \<in> set pre. 0 < unit_count te w) \<or> 0 < unit_count te u"
    using w v(2) by auto
  from render_split [OF conjunct1 [OF a] this, of post]
  obtain xs ys where "render Period te False all_units = xs @ [unit_text te u, unit_label u] @ ys"
    using split by auto
  then show "printed Period te u" by (simp add: printed_def stream_render)
qed

lemma printed_with_count_iff: "printed_with_count Period te u \<longleftrightarrow> printed Period te u"
proof
  assume "printed_with_count Period te u"
  then show "printed Period te u"
    unfolding printed_with_count_def printed_def by (rule zip_tl_right)
next
  assume "printed Period te u"
  then have a: "ratio_less_equal Period (unit_period u)" and "activated te u"
    by (simp_all add: printed_iff)
  then obtain v where v: "unit_index v \<le> unit_index u" "0 < unit_count te v"
    by (auto simp: activated_def)
  from units_before [OF v(1)] obtain pre post
    where split: "all_units = pre @ u # post" and w: "v = u \<or> v \<in> set pre" by blast
  have "False \<or> (\<exists>w \<in> set pre. 0 < unit_count te w) \<or> 0 < unit_count te u"
    using w v(2) by auto
  from render_split [OF a this, of post]
  obtain xs ys where r: "render Period te False all_units = xs @ [unit_text te u, unit_label u] @ ys"
    using split by auto
  show "printed_with_count Period te u"
    unfolding printed_with_count_def stream_render r by (rule adjacent_in_zip)
qed

section \<open>Rendering: activation and candidates\<close>

lemma ratio_less_equal_value:
  assumes "0 < den R1" "0 < den R2" "products_fit R1 R2"
  shows "ratio_less_equal R1 R2 \<longleftrightarrow> ratio_value R1 \<le> ratio_value R2"
proof -
  from assms(3) have fit: "representable (num R2 * den R1)" "representable (num R1 * den R2)"
    by (simp_all add: products_fit_def)
  from ratio_less_value [OF assms(2,1) fit]
  show ?thesis by (auto simp: ratio_less_equal_def ratio_value_def)
qed

lemma unit_period_den: "0 < den (unit_period u)"
  by (cases u)
    (simp_all add: days_period_def hours_period_def minutes_period_def seconds_period_def
      milliseconds_period_def microseconds_period_def nanoseconds_period_def std_ratio_den_pos)

text \<open>
  C10. The code tests \<^verbatim>\<open>count() > 0\<close>, so a count below zero does not set the activation
  flag: when every field of the \<^verbatim>\<open>TimeElements\<close> is zero or negative, nothing is inserted
  and the rendered string is empty, whatever the origin period.
\<close>

theorem negative_counts_render_empty:
  assumes "d te \<le> 0" "h te \<le> 0" "m te \<le> 0" "s te \<le> 0" "ms te \<le> 0" "us te \<le> 0" "ns te \<le> 0"
  shows "TimeElementsToString_stream Period te = [] \<and> TimeElementsToString Period te = ''''"
proof -
  have "\<forall>u \<in> set all_units. unit_count te u \<le> 0"
    using assms by (simp add: all_units_def)
  then have "render Period te False all_units = []"
    by (intro render_inactive) simp_all
  then show ?thesis by (simp add: TimeElementsToString_def stream_render)
qed

theorem negative_counts_render_empty_witness:
  "TimeElementsToString nanoseconds_period
     \<lparr>d = - 1, h = - 2, m = 0, s = - 59, ms = - 999, us = 0, ns = - 1\<rparr> = ''''"
  using negative_counts_render_empty
    [of "\<lparr>d = - 1, h = - 2, m = 0, s = - 59, ms = - 999, us = 0, ns = - 1\<rparr>" nanoseconds_period]
  by simp

text \<open>
  C4, as the code has it. A unit is printed only if it passes the candidate test of the code.
  For an origin period whose cross-products with the period of the unit fit \<^verbatim>\<open>intmax_t\<close>
  the test is the rational order: the unit is printed only if the origin period is less than
  or equal to the period of the unit, and a unit whose period is less than the origin period
  is never printed, whatever the counts and the activation flag are.
\<close>

theorem printed_only_if_candidate:
  "(printed Period te u \<longrightarrow> ratio_less_equal Period (unit_period u)) \<and>
   (0 < den Period \<and> products_fit Period (unit_period u) \<longrightarrow>
      (printed Period te u \<longrightarrow> ratio_value Period \<le> ratio_value (unit_period u)) \<and>
      (ratio_value (unit_period u) < ratio_value Period \<longrightarrow> \<not> printed Period te u))"
proof -
  have a: "printed Period te u \<longrightarrow> ratio_less_equal Period (unit_period u)"
    using render_label [of u Period te False all_units] by (simp add: printed_def stream_render)
  have "(printed Period te u \<longrightarrow> ratio_value Period \<le> ratio_value (unit_period u)) \<and>
      (ratio_value (unit_period u) < ratio_value Period \<longrightarrow> \<not> printed Period te u)"
    if "0 < den Period" "products_fit Period (unit_period u)"
    using a ratio_less_equal_value [OF that(1) unit_period_den that(2)] by auto
  then show ?thesis using a by blast
qed

theorem printed_only_if_candidate_witness:
  "(0::int) < den seconds_period \<and>
   products_fit seconds_period (unit_period Seconds) \<and>
   products_fit seconds_period (unit_period Milliseconds) \<and>
   ratio_value (unit_period Milliseconds) < ratio_value seconds_period \<and>
   printed seconds_period \<lparr>d = 0, h = 1, m = 0, s = 5, ms = 7, us = 0, ns = 0\<rparr> Seconds \<and>
   ratio_less_equal seconds_period (unit_period Seconds) \<and>
   ratio_value seconds_period \<le> ratio_value (unit_period Seconds) \<and>
   \<not> printed seconds_period \<lparr>d = 0, h = 1, m = 0, s = 5, ms = 7, us = 0, ns = 0\<rparr> Milliseconds"
proof -
  let ?te = "\<lparr>d = 0, h = 1, m = 0, s = 5, ms = 7, us = 0, ns = 0\<rparr>"
  have pos: "(0::int) < den seconds_period" by code_simp
  have fit: "products_fit seconds_period (unit_period Seconds)"
    "products_fit seconds_period (unit_period Milliseconds)" by code_simp+
  have members: "num seconds_period = 1" "den seconds_period = 1"
    "num milliseconds_period = 1" "den milliseconds_period = 1000"
    by (simp_all add: seconds_period_def milliseconds_period_def std_ratio_def)
  have fine: "ratio_value (unit_period Milliseconds) < ratio_value seconds_period"
    by (simp add: ratio_value_def members)
  have pr: "printed seconds_period ?te Seconds" by code_simp
  show ?thesis
    using fine pos pr fit
      printed_only_if_candidate [of seconds_period ?te Seconds]
      printed_only_if_candidate [of seconds_period ?te Milliseconds]
    by blast
qed

text \<open>
  C4 as stated, for every origin period, fails where a cross-product leaves \<^verbatim>\<open>intmax_t\<close>:
  at the origin period of \<open>10 ^ 10\<close> seconds the product with the denominator of a
  nanosecond wraps to a negative number, the nanoseconds pass the candidate test although
  their period is far below the origin, and 7 nanoseconds are printed.
\<close>

theorem finer_unit_printed_after_wrap:
  "ratio_value (unit_period Nanoseconds) < ratio_value (std_ratio 10000000000 1) \<and>
   printed (std_ratio 10000000000 1)
     \<lparr>d = 0, h = 0, m = 0, s = 0, ms = 0, us = 0, ns = 7\<rparr> Nanoseconds \<and>
   TimeElementsToString (std_ratio 10000000000 1)
     \<lparr>d = 0, h = 0, m = 0, s = 0, ms = 0, us = 0, ns = 7\<rparr> = ''007ns.''"
proof -
  have members: "num nanoseconds_period = 1" "den nanoseconds_period = 1000000000"
    "num (std_ratio 10000000000 1) = 10000000000" "den (std_ratio 10000000000 1) = 1"
    by (simp_all add: nanoseconds_period_def std_ratio_def)
  have "ratio_value (unit_period Nanoseconds) < ratio_value (std_ratio 10000000000 1)"
    by (simp add: ratio_value_def members)
  moreover have "printed (std_ratio 10000000000 1)
     \<lparr>d = 0, h = 0, m = 0, s = 0, ms = 0, us = 0, ns = 7\<rparr> Nanoseconds" by code_simp
  moreover have "TimeElementsToString (std_ratio 10000000000 1)
     \<lparr>d = 0, h = 0, m = 0, s = 0, ms = 0, us = 0, ns = 7\<rparr> = ''007ns.''" by code_simp
  ultimately show ?thesis by blast
qed

text \<open>
  C3, as the code has it. The activation flag is set by a count greater than zero and by
  nothing else: a unit \<open>u\<close> is printed, its padded count first and its label right after,
  exactly when it passes the candidate test of the code and \<open>u\<close> or a unit before it in the
  order days to nanoseconds has a count greater than zero (candidate or not); the count of
  \<open>u\<close> itself may be zero or negative. Where the cross-products of the origin period with
  the period of \<open>u\<close> fit \<^verbatim>\<open>intmax_t\<close>, the candidates are the units whose period is not
  less than the origin period.
\<close>

theorem activation_prints_later_candidates:
  "(printed Period te u \<longleftrightarrow> ratio_less_equal Period (unit_period u) \<and> activated te u) \<and>
   (printed_with_count Period te u \<longleftrightarrow> printed Period te u) \<and>
   (unit_index v \<le> unit_index u \<and> 0 < unit_count te v \<longrightarrow> activated te u) \<and>
   (0 < den Period \<and> products_fit Period (unit_period u) \<and>
    ratio_value Period \<le> ratio_value (unit_period u) \<and>
    unit_index v \<le> unit_index u \<and> 0 < unit_count te v \<longrightarrow>
      printed_with_count Period te u)"
proof -
  have act: "activated te u" if "unit_index v \<le> unit_index u" "0 < unit_count te v"
    using that in_all_units [of v] by (auto simp: activated_def)
  have "printed_with_count Period te u"
    if "0 < den Period" "products_fit Period (unit_period u)"
      "ratio_value Period \<le> ratio_value (unit_period u)"
      "unit_index v \<le> unit_index u" "0 < unit_count te v"
  proof -
    have "ratio_less_equal Period (unit_period u)"
      using ratio_less_equal_value [OF that(1) unit_period_den that(2)] that(3) by simp
    then show ?thesis using act [OF that(4,5)] by (simp add: printed_with_count_iff printed_iff)
  qed
  then show ?thesis using act printed_iff printed_with_count_iff by blast
qed

theorem activation_prints_later_candidates_witness:
  "(0::int) < den seconds_period \<and>
   products_fit seconds_period (unit_period Minutes) \<and>
   ratio_value seconds_period \<le> ratio_value (unit_period Minutes) \<and>
   unit_index Hours \<le> unit_index Minutes \<and>
   0 < unit_count \<lparr>d = 0, h = 1, m = 0, s = 5, ms = 0, us = 0, ns = 0\<rparr> Hours \<and>
   unit_count \<lparr>d = 0, h = 1, m = 0, s = 5, ms = 0, us = 0, ns = 0\<rparr> Minutes = 0 \<and>
   activated \<lparr>d = 0, h = 1, m = 0, s = 5, ms = 0, us = 0, ns = 0\<rparr> Minutes \<and>
   printed_with_count seconds_period \<lparr>d = 0, h = 1, m = 0, s = 5, ms = 0, us = 0, ns = 0\<rparr> Minutes \<and>
   TimeElementsToString seconds_period \<lparr>d = 0, h = 1, m = 0, s = 5, ms = 0, us = 0, ns = 0\<rparr>
     = ''01h.00m.05s.''"
proof -
  let ?te = "\<lparr>d = 0, h = 1, m = 0, s = 5, ms = 0, us = 0, ns = 0\<rparr>"
  have pos: "(0::int) < den seconds_period" by code_simp
  have fit: "products_fit seconds_period (unit_period Minutes)" by code_simp
  have members: "num seconds_period = 1" "den seconds_period = 1"
    "num minutes_period = 60" "den minutes_period = 1"
    by (simp_all add: seconds_period_def minutes_period_def std_ratio_def)
  have le: "ratio_value seconds_period \<le> ratio_value (unit_period Minutes)"
    by (simp add: ratio_value_def members)
  have a: "unit_index Hours \<le> unit_index Minutes" by simp
  have b: "0 < unit_count ?te Hours" by simp
  have e: "TimeElementsToString seconds_period ?te = ''01h.00m.05s.''" by code_simp
  have z: "unit_count ?te Minutes = 0" by simp
  show ?thesis
    using pos fit le a b e z
      activation_prints_later_candidates [of seconds_period ?te Minutes Hours]
    by blast
qed

text \<open>
  C3 as stated, with "non-zero" for the count that activates, fails: a count that is not
  zero but negative does not activate. With \<open>-1\<close> hour at the resolution of seconds neither
  the hours nor the minutes are printed, although both are candidates.
\<close>

theorem nonzero_count_does_not_activate:
  "unit_index Hours \<le> unit_index Minutes \<and>
   unit_count \<lparr>d = 0, h = - 1, m = 0, s = 0, ms = 0, us = 0, ns = 0\<rparr> Hours \<noteq> 0 \<and>
   ratio_less_equal seconds_period (unit_period Hours) \<and>
   ratio_less_equal seconds_period (unit_period Minutes) \<and>
   \<not> printed seconds_period \<lparr>d = 0, h = - 1, m = 0, s = 0, ms = 0, us = 0, ns = 0\<rparr> Hours \<and>
   \<not> printed seconds_period \<lparr>d = 0, h = - 1, m = 0, s = 0, ms = 0, us = 0, ns = 0\<rparr> Minutes \<and>
   TimeElementsToString seconds_period \<lparr>d = 0, h = - 1, m = 0, s = 0, ms = 0, us = 0, ns = 0\<rparr> = ''''"
  by code_simp

section \<open>Splitting: conversion factors and the closed form\<close>

lemma std_ratio_whole: "0 < q \<Longrightarrow> std_ratio q 1 = \<lparr>num = q, den = 1\<rparr>"
  by (simp add: std_ratio_def)

lemma std_ratio_unit_fraction: "0 < q \<Longrightarrow> std_ratio 1 q = \<lparr>num = 1, den = q\<rparr>"
  by (simp add: std_ratio_def)

lemma std_ratio_cancel:
  assumes "0 < g" "0 < a" "0 < b"
  shows "std_ratio (g * a) (g * b) = std_ratio a b"
proof -
  have "gcd (g * a) (g * b) = g * gcd a b"
    using assms gcd_mult_distrib_int [of g a b] by simp
  moreover have "\<bar>g * a\<bar> div (g * gcd a b) = \<bar>a\<bar> div gcd a b"
    using assms by (simp add: abs_mult)
  moreover have "\<bar>g * b\<bar> div (g * gcd a b) = \<bar>b\<bar> div gcd a b"
    using assms by (simp add: abs_mult)
  ultimately show ?thesis using assms by (simp add: std_ratio_def sgn_mult)
qed

lemma unit_periods:
  "days_period = \<lparr>num = 86400, den = 1\<rparr>"
  "hours_period = \<lparr>num = 3600, den = 1\<rparr>"
  "minutes_period = \<lparr>num = 60, den = 1\<rparr>"
  "seconds_period = \<lparr>num = 1, den = 1\<rparr>"
  "milliseconds_period = \<lparr>num = 1, den = 1000\<rparr>"
  "microseconds_period = \<lparr>num = 1, den = 1000000\<rparr>"
  "nanoseconds_period = \<lparr>num = 1, den = 1000000000\<rparr>"
  by (simp_all add: days_period_def hours_period_def minutes_period_def seconds_period_def
      milliseconds_period_def microseconds_period_def nanoseconds_period_def
      std_ratio_whole std_ratio_unit_fraction)

text \<open>
  At the origin periods \<open>n / d\<close> with \<open>n * 10 ^ 9\<close> and \<open>86400 * d\<close> in range no comparison
  with the period of a unit wraps; the periods at which the split compiles are among them.
\<close>

lemma products_fit_units:
  assumes "0 < num P" "0 < den P"
    and "representable (num P * 1000000000)" "representable (86400 * den P)"
  shows "products_fit P (unit_period u)"
  using assms
  by (cases u)
    (simp_all add: products_fit_def unit_periods representable_def INTMAX_MIN_def INTMAX_MAX_def)

lemma ratio_divide_Inr:
  "ratio_divide R1 R2 = Inr cf \<Longrightarrow>
   num R2 \<noteq> 0 \<and> cf = std_ratio (num R1 * den R2) (den R1 * num R2) \<and>
   representable (num cf) \<and> representable (den cf)"
  by (auto simp: ratio_divide_def Let_def split: if_splits)

text \<open>The periods at which the body of \<open>SplitTimeElements\<close> compiles.\<close>

lemma compiles_shape:
  assumes "SplitTimeElements_compiles P"
  shows "num P = 1 \<and> (\<exists>k. 0 < k \<and> den P = 1000000 * k) \<and> representable (86400 * den P)"
proof -
  from assms have per: "0 < num P" "0 < den P" "gcd (num P) (den P) = 1"
    and cd: "castable days_period P" and cu: "convertible P microseconds_period"
    by (simp_all add: SplitTimeElements_compiles_def is_period_def)
  from cu obtain cf where cf: "ratio_divide microseconds_period P = Inr cf" and one: "den cf = 1"
    by (auto simp: convertible_def split: sum.splits)
  from ratio_divide_Inr [OF cf]
  have cfv: "cf = std_ratio (den P) (1000000 * num P)" by (simp add: unit_periods)
  have nz: "1000000 * num P \<noteq> 0" using per by simp
  have "num cf * (1000000 * num P) = den P * den cf"
    unfolding cfv by (rule std_ratio_cross [OF nz])
  then have e: "den P = num cf * 1000000 * num P" using one by simp
  then have "num P dvd den P" by simp
  then have "num P dvd gcd (num P) (den P)" by simp
  then have "num P dvd 1" using per(3) by simp
  then have n1: "num P = 1" using per(1) by (simp add: zdvd1_eq)
  have k: "0 < num cf" using e per(2) n1 by (simp add: zero_less_mult_iff)
  from cd obtain cf' where cf': "ratio_divide P days_period = Inr cf'"
    by (auto simp: castable_def split: sum.splits)
  from ratio_divide_Inr [OF cf']
  have v0: "cf' = std_ratio (num P * den days_period) (den P * num days_period)"
    and r: "representable (den cf')" by blast+
  have v: "cf' = std_ratio 1 (den P * 86400)" using v0 by (simp add: unit_periods n1)
  have "den cf' = den P * 86400" unfolding v using per(2) by (simp add: std_ratio_unit_fraction)
  then have "representable (86400 * den P)" using r by (simp add: mult.commute)
  then show ?thesis using n1 e k by (auto simp: mult.commute)
qed

lemma compiles_products_fit:
  assumes "SplitTimeElements_compiles P"
  shows "products_fit P (unit_period u)"
proof -
  from compiles_shape [OF assms] obtain k
    where "num P = 1" "0 < k" "den P = 1000000 * k" "representable (86400 * den P)" by blast
  then show ?thesis
    by (intro products_fit_units)
      (simp_all add: representable_def INTMAX_MIN_def INTMAX_MAX_def)
qed

lemma and_then_Inr [simp]: "and_then (Inr v) f = f v"
  by (simp add: and_then_def)

lemma and_then_Inl [simp]: "and_then (Inl e) f = Inl e"
  by (simp add: and_then_def)

lemma representable_between:
  "0 \<le> x \<Longrightarrow> x \<le> y \<Longrightarrow> representable y \<Longrightarrow> representable x"
  by (simp add: representable_def INTMAX_MIN_def INTMAX_MAX_def)

lemma representable_small [simp]: "representable 0" "representable 1"
  by (simp_all add: representable_def INTMAX_MIN_def INTMAX_MAX_def)

lemma sdiv_nonneg: "0 \<le> x \<Longrightarrow> 0 < y \<Longrightarrow> x sdiv y = x div (y::int)"
  by (cases "x = 0") (simp_all add: signed_divide_int_def)

lemma ratio_divide_eq:
  assumes "num R1 * den R2 = g * a" "den R1 * num R2 = g * b"
    and "0 < g" "0 < a" "0 < b" "gcd a b = 1" "representable a" "representable b"
  shows "ratio_divide R1 R2 = Inr \<lparr>num = a, den = b\<rparr>"
proof -
  have "num R2 \<noteq> 0" using assms(2,3,5) by auto
  moreover have "std_ratio (g * a) (g * b) = \<lparr>num = a, den = b\<rparr>"
    using assms by (simp add: std_ratio_cancel) (simp add: std_ratio_def)
  ultimately show ?thesis using assms by (simp add: ratio_divide_def)
qed

lemma duration_cast_nonneg:
  assumes "ratio_divide From To = Inr cf" "0 < num cf" "0 < den cf" "0 \<le> c"
    and "representable (c * num cf)"
  shows "duration_cast To From c = Inr ((c * num cf) div den cf)"
proof -
  have "0 \<le> c * num cf" using assms by simp
  then have "(c * num cf) sdiv den cf = (c * num cf) div den cf"
    using assms(3) by (rule sdiv_nonneg)
  moreover have "c sdiv den cf = c div den cf" using assms by (simp add: sdiv_nonneg)
  ultimately show ?thesis using assms by (simp add: duration_cast_def checked_def)
qed

text \<open>One unit of \<open>SplitTimeElements\<close>: the cast, then the subtraction of what was cast.\<close>

lemma split_step:
  assumes down: "ratio_divide P U = Inr \<lparr>num = 1, den = q\<rparr>"
    and up: "ratio_divide U P = Inr \<lparr>num = q, den = 1\<rparr>"
    and "0 < q" "0 \<le> c" "representable c"
  shows "duration_cast U P c = Inr (c div q)"
    and "minus_assign P c U (c div q) = Inr (c mod q)"
proof -
  show "duration_cast U P c = Inr (c div q)"
    using duration_cast_nonneg [OF down] assms by simp
  have x: "0 \<le> c div q" using assms by (simp add: pos_imp_zdiv_nonneg_iff)
  have le: "c div q * q \<le> c"
    using assms(3) pos_mod_sign [of q c] div_mult_mod_eq [of c q] by linarith
  have "0 \<le> c div q * q" using x assms(3) by simp
  then have "representable (c div q * q)"
    using le assms(5) by (rule representable_between)
  then have "duration_cast P U (c div q) = Inr (c div q * q)"
    using duration_cast_nonneg [OF up, of "c div q"] assms(3) x by simp
  then have "duration_convert P U (c div q) = Inr (c div q * q)"
    by (simp add: duration_convert_def up)
  moreover have "c - c div q * q = c mod q" by (simp add: minus_div_mult_eq_mod)
  moreover have "representable (c mod q)"
    using assms by (intro representable_between [of "c mod q" c]) (simp_all add: zmod_le_nonneg_dividend)
  ultimately show "minus_assign P c U (c div q) = Inr (c mod q)"
    by (simp add: minus_assign_def checked_def)
qed

lemma representable_mod:
  "0 < q \<Longrightarrow> 0 \<le> c \<Longrightarrow> representable c \<Longrightarrow> 0 \<le> c mod q \<and> representable (c mod q)"
  using representable_between [of "c mod q" c] by (simp add: zmod_le_nonneg_dividend)

lemma ratio_divide_nanoseconds:
  assumes n: "num P = 1" and k: "0 < k" and dk: "den P = 1000000 * k"
    and rep: "representable (1000 * k)"
  shows "\<exists>a b. ratio_divide P nanoseconds_period = Inr \<lparr>num = a, den = b\<rparr> \<and>
           0 < a \<and> a \<le> 1000 \<and> 0 < b \<and> (\<forall>r. (r * a) div b = (r * 1000) div k)"
proof -
  define g where "g = gcd 1000 k"
  have g: "0 < g" "g dvd 1000" "g dvd k" unfolding g_def using k by simp_all
  obtain a where a: "g * a = 1000" using g(2) by (auto simp: dvd_def)
  obtain b where b: "g * b = k" using g(3) by (auto simp: dvd_def)
  have "0 < g * a" unfolding a by simp
  then have a_pos: "0 < a" using g(1) by (simp add: zero_less_mult_iff)
  have "0 < g * b" unfolding b by (rule k)
  then have b_pos: "0 < b" using g(1) by (simp add: zero_less_mult_iff)
  have "gcd (g * a) (g * b) = g" unfolding a b by (simp only: g_def)
  then have "g * gcd a b = g * 1" using g(1) gcd_mult_distrib_int [of g a b] by simp
  then have cop: "gcd a b = 1" using g(1) by simp
  have "1 * b \<le> g * b" using g(1) b_pos by (intro mult_right_mono) simp_all
  then have "b \<le> k" unfolding b by simp
  moreover have "k \<le> 1000 * k" using k by simp
  ultimately have repb: "representable b"
    using b_pos rep by (intro representable_between [of b "1000 * k"]) simp_all
  have "1 * a \<le> g * a" using g(1) a_pos by (intro mult_right_mono) simp_all
  then have a_le: "a \<le> 1000" unfolding a by simp
  have repa: "representable a" using a_le a_pos
    by (simp add: representable_def INTMAX_MIN_def INTMAX_MAX_def)
  have e1: "num P * den nanoseconds_period = (1000000 * g) * a"
  proof -
    have "(1000000 * g) * a = 1000000 * (g * a)" by (simp only: mult.assoc)
    then show ?thesis unfolding a by (simp add: unit_periods n)
  qed
  have e2: "den P * num nanoseconds_period = (1000000 * g) * b"
  proof -
    have "(1000000 * g) * b = 1000000 * (g * b)" by (simp only: mult.assoc)
    then show ?thesis unfolding b by (simp add: unit_periods dk)
  qed
  have gpos: "0 < 1000000 * g" using g(1) by simp
  have down: "ratio_divide P nanoseconds_period = Inr \<lparr>num = a, den = b\<rparr>"
    by (rule ratio_divide_eq [OF e1 e2 gpos a_pos b_pos cop repa repb])
  have "(r * a) div b = (r * 1000) div k" for r
  proof -
    have "(r * 1000) div k = (g * (r * a)) div (g * b)"
      unfolding b by (simp only: a [symmetric] mult.left_commute [of g r a])
    also have "\<dots> = (r * a) div b" using g(1) by (intro div_mult_mult1) simp
    finally show ?thesis by simp
  qed
  then show ?thesis using down a_pos a_le b_pos by blast
qed

lemma SplitTimeElements_value:
  assumes n: "num P = 1" and k: "0 < k" and dk: "den P = 1000000 * k"
    and rep: "representable (86400 * den P)"
    and c: "0 \<le> c" "representable c"
  shows "SplitTimeElements P c = Inr
     \<lparr>d = c div (86400000000 * k),
      h = c mod (86400000000 * k) div (3600000000 * k),
      m = c mod (86400000000 * k) mod (3600000000 * k) div (60000000 * k),
      s = c mod (86400000000 * k) mod (3600000000 * k) mod (60000000 * k) div (1000000 * k),
      ms = c mod (86400000000 * k) mod (3600000000 * k) mod (60000000 * k) mod (1000000 * k)
             div (1000 * k),
      us = c mod (86400000000 * k) mod (3600000000 * k) mod (60000000 * k) mod (1000000 * k)
             mod (1000 * k) div k,
      ns = c mod (86400000000 * k) mod (3600000000 * k) mod (60000000 * k) mod (1000000 * k)
             mod (1000 * k) mod k * 1000 div k\<rparr>"
proof -
  define r1 where "r1 = c mod (86400000000 * k)"
  define r2 where "r2 = r1 mod (3600000000 * k)"
  define r3 where "r3 = r2 mod (60000000 * k)"
  define r4 where "r4 = r3 mod (1000000 * k)"
  define r5 where "r5 = r4 mod (1000 * k)"
  define r6 where "r6 = r5 mod k"
  have big: "representable (86400000000 * k)" using rep dk by simp
  have reps: "representable (3600000000 * k)" "representable (60000000 * k)"
    "representable (1000000 * k)" "representable (1000 * k)" "representable k"
    using k by (auto intro: representable_between [OF _ _ big])
  have r1: "0 \<le> r1 \<and> representable r1"
    unfolding r1_def using k c by (intro representable_mod) simp_all
  have r2: "0 \<le> r2 \<and> representable r2"
    unfolding r2_def using k r1 by (intro representable_mod) simp_all
  have r3: "0 \<le> r3 \<and> representable r3"
    unfolding r3_def using k r2 by (intro representable_mod) simp_all
  have r4: "0 \<le> r4 \<and> representable r4"
    unfolding r4_def using k r3 by (intro representable_mod) simp_all
  have r5: "0 \<le> r5 \<and> representable r5"
    unfolding r5_def using k r4 by (intro representable_mod) simp_all
  have r6: "0 \<le> r6" "r6 < k"
    unfolding r6_def using k by simp_all
  have days_down: "ratio_divide P days_period = Inr \<lparr>num = 1, den = 86400000000 * k\<rparr>"
    using k big by (intro ratio_divide_eq [where g = 1]) (simp_all add: unit_periods n dk)
  have days_up: "ratio_divide days_period P = Inr \<lparr>num = 86400000000 * k, den = 1\<rparr>"
    using k big by (intro ratio_divide_eq [where g = 1]) (simp_all add: unit_periods n dk)
  have hours_down: "ratio_divide P hours_period = Inr \<lparr>num = 1, den = 3600000000 * k\<rparr>"
    using k reps by (intro ratio_divide_eq [where g = 1]) (simp_all add: unit_periods n dk)
  have hours_up: "ratio_divide hours_period P = Inr \<lparr>num = 3600000000 * k, den = 1\<rparr>"
    using k reps by (intro ratio_divide_eq [where g = 1]) (simp_all add: unit_periods n dk)
  have minutes_down: "ratio_divide P minutes_period = Inr \<lparr>num = 1, den = 60000000 * k\<rparr>"
    using k reps by (intro ratio_divide_eq [where g = 1]) (simp_all add: unit_periods n dk)
  have minutes_up: "ratio_divide minutes_period P = Inr \<lparr>num = 60000000 * k, den = 1\<rparr>"
    using k reps by (intro ratio_divide_eq [where g = 1]) (simp_all add: unit_periods n dk)
  have seconds_down: "ratio_divide P seconds_period = Inr \<lparr>num = 1, den = 1000000 * k\<rparr>"
    using k reps by (intro ratio_divide_eq [where g = 1]) (simp_all add: unit_periods n dk)
  have seconds_up: "ratio_divide seconds_period P = Inr \<lparr>num = 1000000 * k, den = 1\<rparr>"
    using k reps by (intro ratio_divide_eq [where g = 1]) (simp_all add: unit_periods n dk)
  have millis_down: "ratio_divide P milliseconds_period = Inr \<lparr>num = 1, den = 1000 * k\<rparr>"
    using k reps by (intro ratio_divide_eq [where g = 1000]) (simp_all add: unit_periods n dk)
  have millis_up: "ratio_divide milliseconds_period P = Inr \<lparr>num = 1000 * k, den = 1\<rparr>"
    using k reps by (intro ratio_divide_eq [where g = 1000]) (simp_all add: unit_periods n dk)
  have micros_down: "ratio_divide P microseconds_period = Inr \<lparr>num = 1, den = k\<rparr>"
    using k reps by (intro ratio_divide_eq [where g = 1000000]) (simp_all add: unit_periods n dk)
  have micros_up: "ratio_divide microseconds_period P = Inr \<lparr>num = k, den = 1\<rparr>"
    using k reps by (intro ratio_divide_eq [where g = 1000000]) (simp_all add: unit_periods n dk)
  from ratio_divide_nanoseconds [OF n k dk reps(4)] obtain a b
    where nanos_down: "ratio_divide P nanoseconds_period = Inr \<lparr>num = a, den = b\<rparr>"
      and ab: "0 < a" "a \<le> 1000" "0 < b" and same: "(r6 * a) div b = (r6 * 1000) div k"
    by blast
  have "r6 * a \<le> k * 1000" using r6 ab k by (intro mult_mono) simp_all
  then have "r6 * a \<le> 1000 * k" by (simp only: mult.commute)
  moreover have "0 \<le> r6 * a" using r6 ab by simp
  ultimately have "representable (r6 * a)"
    using reps(4) by (intro representable_between [of "r6 * a" "1000 * k"])
  then have "duration_cast nanoseconds_period P r6 = Inr ((r6 * a) div b)"
    using duration_cast_nonneg [OF nanos_down, of r6] ab r6 by simp
  then have last: "duration_cast nanoseconds_period P r6 = Inr (r6 * 1000 div k)"
    by (simp only: same)
  have pos: "0 < 86400000000 * k" "0 < 3600000000 * k" "0 < 60000000 * k" "0 < 1000000 * k" "0 < 1000 * k"
    using k by simp_all
  note st1 = split_step [OF days_down days_up pos(1) c]
  note st2 = split_step [OF hours_down hours_up pos(2) conjunct1 [OF r1] conjunct2 [OF r1]]
  note st3 = split_step [OF minutes_down minutes_up pos(3) conjunct1 [OF r2] conjunct2 [OF r2]]
  note st4 = split_step [OF seconds_down seconds_up pos(4) conjunct1 [OF r3] conjunct2 [OF r3]]
  note st5 = split_step [OF millis_down millis_up pos(5) conjunct1 [OF r4] conjunct2 [OF r4]]
  note st6 = split_step [OF micros_down micros_up k conjunct1 [OF r5] conjunct2 [OF r5]]
  have "SplitTimeElements P c = Inr
     \<lparr>d = c div (86400000000 * k), h = r1 div (3600000000 * k), m = r2 div (60000000 * k),
      s = r3 div (1000000 * k), ms = r4 div (1000 * k), us = r5 div k, ns = r6 * 1000 div k\<rparr>"
    unfolding SplitTimeElements_def
    by (simp only: st1 st2 st3 st4 st5 st6 last and_then_Inr
        r1_def [symmetric] r2_def [symmetric] r3_def [symmetric] r4_def [symmetric]
        r5_def [symmetric] r6_def [symmetric])
  then show ?thesis
    unfolding r1_def r2_def r3_def r4_def r5_def r6_def .
qed

lemma div_split:
  fixes x k a :: int
  assumes "0 < k"
  shows "x div k = a * (x div (a * k)) + x mod (a * k) div k"
proof -
  have "x = x mod (a * k) + (a * (x div (a * k))) * k"
    using div_mult_mod_eq [of x "a * k"] by (simp add: ac_simps)
  then have "x div k = (x mod (a * k) + (a * (x div (a * k))) * k) div k" by simp
  also have "\<dots> = a * (x div (a * k)) + x mod (a * k) div k"
    using assms by (intro div_mult_self1) simp
  finally show ?thesis .
qed

lemma div_bounded:
  fixes x q n :: int
  assumes "0 < q" "0 \<le> x" "x < n * q"
  shows "0 \<le> x div q \<and> x div q < n"
proof -
  have "x div q * q \<le> x"
    using assms(1) pos_mod_sign [of q x] div_mult_mod_eq [of x q] by linarith
  have "x div q < n"
  proof (rule ccontr)
    assume "\<not> x div q < n"
    then have "n * q \<le> x div q * q" using assms(1) by (intro mult_right_mono) simp_all
    then show False using \<open>x div q * q \<le> x\<close> assms(3) by linarith
  qed
  then show ?thesis using assms by (simp add: pos_imp_zdiv_nonneg_iff)
qed

lemma mod_bounded:
  fixes x q :: int
  shows "0 < q \<Longrightarrow> 0 \<le> x mod q \<and> x mod q < q"
  by simp

lemma reassemble_value:
  fixes c k :: int
  assumes k: "0 < k"
  defines "r1 \<equiv> c mod (86400000000 * k)"
  defines "r2 \<equiv> r1 mod (3600000000 * k)"
  defines "r3 \<equiv> r2 mod (60000000 * k)"
  defines "r4 \<equiv> r3 mod (1000000 * k)"
  defines "r5 \<equiv> r4 mod (1000 * k)"
  defines "r6 \<equiv> r5 mod k"
  shows "c div (86400000000 * k) * 86400000000000 + r1 div (3600000000 * k) * 3600000000000 +
         r2 div (60000000 * k) * 60000000000 + r3 div (1000000 * k) * 1000000000 +
         r4 div (1000 * k) * 1000000 + r5 div k * 1000 + r6 * 1000 div k
         = (c * 1000000000) div (1000000 * k)"
proof -
  have s1: "c div k = 86400000000 * (c div (86400000000 * k)) + r1 div k"
    unfolding r1_def by (rule div_split [OF k])
  have s2: "r1 div k = 3600000000 * (r1 div (3600000000 * k)) + r2 div k"
    unfolding r2_def by (rule div_split [OF k])
  have s3: "r2 div k = 60000000 * (r2 div (60000000 * k)) + r3 div k"
    unfolding r3_def by (rule div_split [OF k])
  have s4: "r3 div k = 1000000 * (r3 div (1000000 * k)) + r4 div k"
    unfolding r4_def by (rule div_split [OF k])
  have s5: "r4 div k = 1000 * (r4 div (1000 * k)) + r5 div k"
    unfolding r5_def by (rule div_split [OF k])
  have m5: "r5 mod k = r4 mod k" unfolding r5_def by (intro mod_mod_cancel) simp
  have m4: "r4 mod k = r3 mod k" unfolding r4_def by (intro mod_mod_cancel) simp
  have m3: "r3 mod k = r2 mod k" unfolding r3_def by (intro mod_mod_cancel) simp
  have m2: "r2 mod k = r1 mod k" unfolding r2_def by (intro mod_mod_cancel) simp
  have m1: "r1 mod k = c mod k" unfolding r1_def by (intro mod_mod_cancel) simp
  have r6: "r6 = c mod k" unfolding r6_def using m1 m2 m3 m4 m5 by simp
  have "c * 1000 = (c div k * k + c mod k) * 1000" by (simp only: div_mult_mod_eq)
  also have "\<dots> = c mod k * 1000 + (1000 * (c div k)) * k"
  proof -
    have "(x * k + y) * 1000 = y * 1000 + (1000 * x) * k" for x y :: int
      by (simp add: algebra_simps)
    then show ?thesis .
  qed
  finally have "c * 1000 = c mod k * 1000 + (1000 * (c div k)) * k" .
  then have "(c * 1000) div k = (c mod k * 1000 + (1000 * (c div k)) * k) div k" by simp
  also have "\<dots> = 1000 * (c div k) + c mod k * 1000 div k"
    using k by (intro div_mult_self1) simp
  finally have t: "(c * 1000) div k = 1000 * (c div k) + r6 * 1000 div k" using r6 by simp
  have "(c * 1000000000) div (1000000 * k) = (1000000 * (c * 1000)) div (1000000 * k)" by simp
  also have "\<dots> = (c * 1000) div k" by (intro div_mult_mult1) simp
  finally have u: "(c * 1000000000) div (1000000 * k) = (c * 1000) div k" .
  show ?thesis unfolding u t s1 s2 s3 s4 s5 by simp
qed

lemma duration_cast_Inr_nonneg:
  assumes "ratio_divide From To = Inr cf" "0 < num cf" "0 < den cf" "0 \<le> c"
    and "duration_cast To From c = Inr x"
  shows "x = (c * num cf) div den cf"
proof -
  have "0 \<le> c * num cf" using assms by simp
  then have a: "(c * num cf) sdiv den cf = (c * num cf) div den cf"
    using assms(3) by (rule sdiv_nonneg)
  have b: "c sdiv den cf = c div den cf" using assms by (simp add: sdiv_nonneg)
  show ?thesis
  proof (cases "den cf = 1")
    case True
    then show ?thesis
      using assms(5) by (auto simp: duration_cast_def assms(1) checked_def split: if_splits)
  next
    case False
    show ?thesis
    proof (cases "num cf = 1")
      case True
      then show ?thesis using False assms(5) b by (simp add: duration_cast_def assms(1))
    next
      case n: False
      then show ?thesis
        using False assms(5) a by (auto simp: duration_cast_def assms(1) checked_def split: if_splits)
    qed
  qed
qed

text \<open>
  C1. For a period at which the code compiles and a duration that is not negative,
  \<open>SplitTimeElements\<close> returns, and the seven fields, each times the length of its unit,
  add up to the duration truncated to nanoseconds: the mathematical quotient, which is also
  what \<^verbatim>\<open>duration_cast<nanoseconds>\<close> gives wherever that cast does not overflow.
\<close>

theorem split_reassembles:
  assumes "SplitTimeElements_compiles Period" "0 \<le> duration" "representable duration"
  shows "\<exists>te. SplitTimeElements Period duration = Inr te \<and>
           reassemble_ns te = (duration * (1000000000 * num Period)) div den Period \<and>
           (\<forall>x. duration_cast nanoseconds_period Period duration = Inr x \<longrightarrow> reassemble_ns te = x)"
proof -
  from compiles_shape [OF assms(1)] obtain k
    where n: "num Period = 1" and k: "0 < k" and dk: "den Period = 1000000 * k"
      and rep: "representable (86400 * den Period)" by blast
  note v = SplitTimeElements_value [OF n k dk rep assms(2,3)]
  have total: "(duration * 1000000000) div (1000000 * k) = (duration * 1000) div k"
  proof -
    have "(duration * 1000000000) div (1000000 * k) = (1000000 * (duration * 1000)) div (1000000 * k)"
      by simp
    also have "\<dots> = (duration * 1000) div k" by (intro div_mult_mult1) simp
    finally show ?thesis .
  qed
  have small: "representable (1000 * k)"
    using k rep dk by (intro representable_between [of "1000 * k" "86400 * den Period"]) simp_all
  from ratio_divide_nanoseconds [OF n k dk small] obtain a b
    where down: "ratio_divide Period nanoseconds_period = Inr \<lparr>num = a, den = b\<rparr>"
      and ab: "0 < a" "0 < b" and same: "(duration * a) div b = (duration * 1000) div k"
    by blast
  have cast: "x = (duration * 1000) div k" if "duration_cast nanoseconds_period Period duration = Inr x" for x
  proof -
    have "x = (duration * a) div b"
      using duration_cast_Inr_nonneg [OF down _ _ assms(2) that] ab by simp
    then show ?thesis by (simp only: same)
  qed
  let ?te = "\<lparr>d = duration div (86400000000 * k),
      h = duration mod (86400000000 * k) div (3600000000 * k),
      m = duration mod (86400000000 * k) mod (3600000000 * k) div (60000000 * k),
      s = duration mod (86400000000 * k) mod (3600000000 * k) mod (60000000 * k) div (1000000 * k),
      ms = duration mod (86400000000 * k) mod (3600000000 * k) mod (60000000 * k) mod (1000000 * k)
             div (1000 * k),
      us = duration mod (86400000000 * k) mod (3600000000 * k) mod (60000000 * k) mod (1000000 * k)
             mod (1000 * k) div k,
      ns = duration mod (86400000000 * k) mod (3600000000 * k) mod (60000000 * k) mod (1000000 * k)
             mod (1000 * k) mod k * 1000 div k\<rparr>"
  have "reassemble_ns ?te = (duration * 1000000000) div (1000000 * k)"
    by (simp only: reassemble_ns_def TimeElements.select_convs reassemble_value [OF k])
  then have r: "reassemble_ns ?te = (duration * 1000) div k" by (simp only: total)
  have "(duration * (1000000000 * num Period)) div den Period = (duration * 1000000000) div (1000000 * k)"
    by (simp only: n dk mult_1_right)
  then have one: "reassemble_ns ?te = (duration * (1000000000 * num Period)) div den Period"
    using r total by (simp only:)
  have two: "\<forall>x. duration_cast nanoseconds_period Period duration = Inr x \<longrightarrow> reassemble_ns ?te = x"
  proof (intro allI impI)
    fix x
    assume "duration_cast nanoseconds_period Period duration = Inr x"
    from cast [OF this] have "x = (duration * 1000) div k" .
    then show "reassemble_ns ?te = x" unfolding r by (rule sym)
  qed
  show ?thesis
    using v one two by (intro exI [of _ ?te] conjI)
qed

theorem split_reassembles_witness:
  "SplitTimeElements_compiles nanoseconds_period \<and> (0::int) \<le> 90061500250125 \<and>
   representable 90061500250125 \<and>
   (\<exists>te. SplitTimeElements nanoseconds_period 90061500250125 = Inr te \<and>
      reassemble_ns te = 90061500250125)"
proof -
  have a: "SplitTimeElements_compiles nanoseconds_period" by code_simp
  have b: "(0::int) \<le> 90061500250125" by simp
  have c: "representable 90061500250125" by code_simp
  have n: "num nanoseconds_period = 1" "den nanoseconds_period = 1000000000"
    by (simp_all add: unit_periods)
  from split_reassembles [OF a b c] obtain te
    where "SplitTimeElements nanoseconds_period 90061500250125 = Inr te"
      and "reassemble_ns te = (90061500250125 * (1000000000 * num nanoseconds_period)) div den nanoseconds_period"
    by blast
  then have "SplitTimeElements nanoseconds_period 90061500250125 = Inr te \<and>
      reassemble_ns te = 90061500250125" by (simp add: n)
  then show ?thesis using a b c by blast
qed

section \<open>Splitting: bounds, a concrete rendering, zero\<close>

text \<open>
  C2. For a period at which the code compiles and a duration that is not negative, the
  fields of the result are in range: hours in \<open>[0, 24)\<close>, minutes and seconds in \<open>[0, 60)\<close>,
  milliseconds, microseconds and nanoseconds in \<open>[0, 1000)\<close>; days are not negative and
  have no upper bound.
\<close>

theorem split_bounds:
  assumes "SplitTimeElements_compiles Period" "0 \<le> duration" "representable duration"
  shows "\<exists>te. SplitTimeElements Period duration = Inr te \<and>
           0 \<le> d te \<and>
           0 \<le> h te \<and> h te < 24 \<and>
           0 \<le> m te \<and> m te < 60 \<and>
           0 \<le> s te \<and> s te < 60 \<and>
           0 \<le> ms te \<and> ms te < 1000 \<and>
           0 \<le> us te \<and> us te < 1000 \<and>
           0 \<le> ns te \<and> ns te < 1000"
proof -
  from compiles_shape [OF assms(1)] obtain k
    where n: "num Period = 1" and k: "0 < k" and dk: "den Period = 1000000 * k"
      and rep: "representable (86400 * den Period)" by blast
  note v = SplitTimeElements_value [OF n k dk rep assms(2,3)]
  define r1 where "r1 = duration mod (86400000000 * k)"
  define r2 where "r2 = r1 mod (3600000000 * k)"
  define r3 where "r3 = r2 mod (60000000 * k)"
  define r4 where "r4 = r3 mod (1000000 * k)"
  define r5 where "r5 = r4 mod (1000 * k)"
  define r6 where "r6 = r5 mod k"
  have r1: "0 \<le> r1 \<and> r1 < 86400000000 * k" unfolding r1_def using k by (intro mod_bounded) simp
  have r2: "0 \<le> r2 \<and> r2 < 3600000000 * k" unfolding r2_def using k by (intro mod_bounded) simp
  have r3: "0 \<le> r3 \<and> r3 < 60000000 * k" unfolding r3_def using k by (intro mod_bounded) simp
  have r4: "0 \<le> r4 \<and> r4 < 1000000 * k" unfolding r4_def using k by (intro mod_bounded) simp
  have r5: "0 \<le> r5 \<and> r5 < 1000 * k" unfolding r5_def using k by (intro mod_bounded) simp
  have r6: "0 \<le> r6 \<and> r6 < k" unfolding r6_def using k by (intro mod_bounded)
  have days: "0 \<le> duration div (86400000000 * k)"
    using assms(2) k by (simp add: pos_imp_zdiv_nonneg_iff)
  have hours: "0 \<le> r1 div (3600000000 * k) \<and> r1 div (3600000000 * k) < 24"
    using r1 k by (intro div_bounded) simp_all
  have minutes: "0 \<le> r2 div (60000000 * k) \<and> r2 div (60000000 * k) < 60"
    using r2 k by (intro div_bounded) simp_all
  have seconds: "0 \<le> r3 div (1000000 * k) \<and> r3 div (1000000 * k) < 60"
    using r3 k by (intro div_bounded) simp_all
  have millis: "0 \<le> r4 div (1000 * k) \<and> r4 div (1000 * k) < 1000"
    using r4 k by (intro div_bounded) simp_all
  have micros: "0 \<le> r5 div k \<and> r5 div k < 1000"
    using r5 k by (intro div_bounded) simp_all
  have nanos: "0 \<le> r6 * 1000 div k \<and> r6 * 1000 div k < 1000"
    using r6 k by (intro div_bounded) simp_all
  let ?te = "\<lparr>d = duration div (86400000000 * k), h = r1 div (3600000000 * k),
      m = r2 div (60000000 * k), s = r3 div (1000000 * k), ms = r4 div (1000 * k),
      us = r5 div k, ns = r6 * 1000 div k\<rparr>"
  have "SplitTimeElements Period duration = Inr ?te"
    unfolding r1_def r2_def r3_def r4_def r5_def r6_def by (rule v)
  moreover have "0 \<le> d ?te \<and> 0 \<le> h ?te \<and> h ?te < 24 \<and> 0 \<le> m ?te \<and> m ?te < 60 \<and>
      0 \<le> s ?te \<and> s ?te < 60 \<and> 0 \<le> ms ?te \<and> ms ?te < 1000 \<and>
      0 \<le> us ?te \<and> us ?te < 1000 \<and> 0 \<le> ns ?te \<and> ns ?te < 1000"
    using days hours minutes seconds millis micros nanos
    by (simp only: TimeElements.select_convs simp_thms)
  ultimately show ?thesis by blast
qed

theorem split_bounds_witness:
  "SplitTimeElements_compiles microseconds_period \<and> (0::int) \<le> 172799999999 \<and>
   representable 172799999999 \<and>
   (\<exists>te. SplitTimeElements microseconds_period 172799999999 = Inr te \<and>
      0 \<le> d te \<and> h te < 24 \<and> m te < 60 \<and> s te < 60 \<and> ms te < 1000 \<and> us te < 1000 \<and>
      ns te < 1000)"
proof -
  have a: "SplitTimeElements_compiles microseconds_period" by code_simp
  have b: "(0::int) \<le> 172799999999" by simp
  have c: "representable 172799999999" by code_simp
  show ?thesis using a b c split_bounds [OF a b c] by blast
qed

text \<open>
  C9. 90061500250125 nanoseconds at the resolution of nanoseconds are rendered as
  \<open>1d.01h.01m.01s.500ms.250us.125ns.\<close>: days without padding, hours, minutes and seconds
  padded to two digits, the three finer units to three, each with its label and a period.
\<close>

theorem time_to_string_concrete:
  "TimeToString nanoseconds_period 90061500250125 = Inr ''1d.01h.01m.01s.500ms.250us.125ns.''"
  by code_simp

text \<open>
  C5. A duration of exactly zero is rendered as the empty string at every period at which
  the code compiles, by \<open>TimeToString\<close> and hence by \<open>to_string\<close> of a stopwatch whose
  elapsed duration is zero; the rendering of seven zero counts is empty at any origin
  period whatever.
\<close>

theorem zero_renders_empty:
  assumes "SplitTimeElements_compiles Period"
  shows "TimeToString Period 0 = Inr '''' \<and>
         (\<forall>this clock. fst (elapsed Period this clock) = Inr 0 \<longrightarrow>
                       fst (to_string Period this clock) = Inr '''') \<and>
         TimeElementsToString Origin \<lparr>d = 0, h = 0, m = 0, s = 0, ms = 0, us = 0, ns = 0\<rparr> = ''''"
proof -
  from compiles_shape [OF assms(1)] obtain k
    where n: "num Period = 1" and k: "0 < k" and dk: "den Period = 1000000 * k"
      and rep: "representable (86400 * den Period)" by blast
  have empty: "TimeElementsToString Q \<lparr>d = 0, h = 0, m = 0, s = 0, ms = 0, us = 0, ns = 0\<rparr> = ''''" for Q
    by (simp add: TimeElementsToString_def TimeElementsToString_stream_def)
  have "SplitTimeElements Period 0 = Inr \<lparr>d = 0, h = 0, m = 0, s = 0, ms = 0, us = 0, ns = 0\<rparr>"
    using SplitTimeElements_value [OF n k dk rep, of 0] by simp
  then have str: "TimeToString Period 0 = Inr ''''"
    by (simp add: TimeToString_def empty)
  have "fst (to_string Period this clock) = Inr ''''"
    if "fst (elapsed Period this clock) = Inr 0" for this clock
    using that str by (cases "elapsed Period this clock") (simp add: to_string_def)
  then show ?thesis using str empty by blast
qed

theorem zero_renders_empty_witness:
  "SplitTimeElements_compiles nanoseconds_period \<and>
   TimeToString nanoseconds_period 0 = Inr '''' \<and>
   fst (elapsed nanoseconds_period \<lparr>ongoing = False, startTime = 5, endTime = 5\<rparr> (\<lambda>i. int i)) = Inr 0 \<and>
   fst (to_string nanoseconds_period \<lparr>ongoing = False, startTime = 5, endTime = 5\<rparr> (\<lambda>i. int i)) = Inr ''''"
proof -
  have a: "SplitTimeElements_compiles nanoseconds_period" by code_simp
  have "ratio_divide nanoseconds_period nanoseconds_period = Inr \<lparr>num = 1, den = 1\<rparr>"
    by (intro ratio_divide_eq [where g = 1000000000]) (simp_all add: unit_periods)
  then have b: "fst (elapsed nanoseconds_period \<lparr>ongoing = False, startTime = 5, endTime = 5\<rparr> (\<lambda>i. int i)) = Inr 0"
    by (simp add: elapsed_def checked_def duration_cast_def)
  show ?thesis using a b zero_renders_empty [OF a] by blast
qed

section \<open>Splitting: a result implies compilation\<close>

lemma and_then_InrD: "and_then x f = Inr y \<Longrightarrow> \<exists>v. x = Inr v \<and> f v = Inr y"
  by (cases x) simp_all

lemma duration_cast_castable: "duration_cast To From c = Inr x \<Longrightarrow> castable To From"
  by (cases "ratio_divide From To") (simp_all add: duration_cast_def castable_def)

lemma minus_assign_convertible: "minus_assign Period c U x = Inr y \<Longrightarrow> convertible Period U"
  by (cases "ratio_divide U Period")
    (auto simp: minus_assign_def duration_convert_def convertible_def split: if_splits dest!: and_then_InrD)

text \<open>
  A call of \<open>SplitTimeElements\<close> that returns was compiled: the hypothesis of the theorems
  on splitting leaves out no period at which the function has a result.
\<close>

lemma returns_compiles:
  assumes "SplitTimeElements Period duration = Inr te" "is_period Period"
  shows "SplitTimeElements_compiles Period"
  using assms unfolding SplitTimeElements_def SplitTimeElements_compiles_def
  by (auto dest!: and_then_InrD intro: duration_cast_castable minus_assign_convertible)

section \<open>The stopwatch under a monotonic clock\<close>

lemma std_ratio_div:
  assumes "0 < A" "0 < B" "0 \<le> c"
  shows "(c * num (std_ratio A B)) div den (std_ratio A B) = (c * A) div B"
proof -
  let ?a = "num (std_ratio A B)" and ?b = "den (std_ratio A B)"
  have B: "B \<noteq> 0" using assms by simp
  have b: "0 < ?b" by (rule std_ratio_den_pos [OF B])
  have cross: "?a * B = A * ?b" by (rule std_ratio_cross [OF B])
  have "(c * ?a) div ?b = (B * (c * ?a)) div (B * ?b)" using B by simp
  also have "B * (c * ?a) = ?b * (c * A)" using cross by (simp add: algebra_simps)
  also have "B * ?b = ?b * B" by simp
  also have "(?b * (c * A)) div (?b * B) = (c * A) div B" using b by simp
  finally show ?thesis .
qed

lemma std_ratio_num_pos: "0 < A \<Longrightarrow> 0 < B \<Longrightarrow> 0 < num (std_ratio A B)"
proof -
  assume p: "0 < A" "0 < B"
  then have B: "B \<noteq> 0" by simp
  have "num (std_ratio A B) * B = A * den (std_ratio A B)" by (rule std_ratio_cross [OF B])
  moreover have "0 < A * den (std_ratio A B)" using p std_ratio_den_pos [OF B, of A] by simp
  ultimately have "0 < num (std_ratio A B) * B" by simp
  then show ?thesis using p(2) by (simp add: zero_less_mult_iff)
qed

lemma sdiv_by_sign:
  fixes x y :: int
  assumes "0 < y"
  shows "x sdiv y = sgn x * (\<bar>x\<bar> div y)"
  using assms by (simp add: signed_divide_int_def)

lemma duration_cast_Inr:
  assumes rd: "ratio_divide From To = Inr cf" and "0 < num cf" "0 < den cf"
    and "duration_cast To From c = Inr x"
  shows "x = (c * num cf) sdiv den cf"
proof (cases "den cf = 1")
  case True
  then show ?thesis
    using assms(4) by (auto simp: duration_cast_def rd checked_def split: if_splits)
next
  case False
  show ?thesis
  proof (cases "num cf = 1")
    case True
    then show ?thesis using False assms(4) by (simp add: duration_cast_def rd)
  next
    case n: False
    then show ?thesis
      using False assms(4) by (auto simp: duration_cast_def rd checked_def split: if_splits)
  qed
qed

lemma std_ratio_sdiv:
  assumes "0 < A" "0 < B"
  shows "(c * num (std_ratio A B)) sdiv den (std_ratio A B) = (c * A) sdiv B"
proof -
  let ?a = "num (std_ratio A B)" and ?b = "den (std_ratio A B)"
  have B: "B \<noteq> 0" using assms by simp
  have b: "0 < ?b" by (rule std_ratio_den_pos [OF B])
  have a: "0 < ?a" by (rule std_ratio_num_pos [OF assms])
  have "(c * ?a) sdiv ?b = sgn (c * ?a) * (\<bar>c * ?a\<bar> div ?b)" by (rule sdiv_by_sign [OF b])
  also have "sgn (c * ?a) = sgn c" using a by (simp add: sgn_mult)
  also have "\<bar>c * ?a\<bar> = \<bar>c\<bar> * ?a" using a by (simp add: abs_mult)
  also have "(\<bar>c\<bar> * ?a) div ?b = (\<bar>c\<bar> * A) div B" using assms by (intro std_ratio_div) simp_all
  also have "\<bar>c\<bar> * A = \<bar>c * A\<bar>" using assms by (simp add: abs_mult)
  also have "sgn c = sgn (c * A)" using assms by (simp add: sgn_mult)
  also have "sgn (c * A) * (\<bar>c * A\<bar> div B) = (c * A) sdiv B"
    by (rule sdiv_by_sign [OF assms(2), symmetric])
  finally show ?thesis .
qed

lemma elapsed_fst:
  "fst (elapsed Period this clock) =
     and_then (checked (time_difference this clock)) (duration_cast Period nanoseconds_period)"
  by (simp add: elapsed_def time_difference_def now_def)

lemma elapsed_snd:
  "snd (elapsed Period this clock) = (if ongoing this then snd (now clock) else clock)"
  by (simp add: elapsed_def now_def)

lemma to_string_snd: "snd (to_string Period this clock) = snd (elapsed Period this clock)"
  by (cases "elapsed Period this clock") (simp add: to_string_def)

lemma getEndTime_snd:
  "snd (getEndTime this clock) = (if ongoing this then snd (now clock) else clock)"
  by (simp add: getEndTime_def)

lemma mono_after_now: "mono clock \<Longrightarrow> mono (snd (now clock)) \<and> clock 0 \<le> snd (now clock) 0"
  by (auto simp: now_def mono_def)

text \<open>What a monotonic clock keeps true of every reachable state.\<close>

lemma reachable_ordered:
  assumes "reachable clock0 st" "mono clock0"
  shows "mono (snd st) \<and> startTime (fst st) \<le> endTime (fst st) \<and> endTime (fst st) \<le> snd st 0"
  using assms
proof (induction rule: reachable.induct)
  case (constructed uninitialised)
  then show ?case using mono_after_now [of clock0] by (simp add: start_def now_def)
next
  case (started this clock)
  then show ?case using mono_after_now [of clock] by (simp add: start_def now_def)
next
  case (stopped this clock)
  then show ?case using mono_after_now [of clock] by (simp add: stop_def now_def)
next
  case (asked_end this clock)
  then show ?case using mono_after_now [of clock] by (auto simp: getEndTime_snd)
next
  case (asked_elapsed this clock Period)
  then show ?case using mono_after_now [of clock] by (auto simp: elapsed_snd)
next
  case (asked_string this clock Period)
  then show ?case using mono_after_now [of clock] by (auto simp: to_string_snd elapsed_snd)
next
  case (clock_read this clock)
  then show ?case using mono_after_now [of clock] by auto
qed

lemma sdiv_one: "x sdiv 1 = (x::int)"
  by (simp add: signed_divide_int_def sgn_mult_abs)

lemma duration_cast_total:
  assumes "ratio_divide From To = Inr cf" "representable (c * num cf)"
  shows "duration_cast To From c = Inr ((c * num cf) sdiv den cf)"
proof (cases "den cf = 1")
  case True
  then show ?thesis using assms by (simp add: duration_cast_def checked_def sdiv_one)
next
  case False
  then show ?thesis using assms by (simp add: duration_cast_def checked_def)
qed

text \<open>
  C7, as the code has it. For every state of the stopwatch and every resolution such that
  the difference in nanoseconds and its product with the numerator of the conversion factor
  fit 64 bits, \<open>elapsed\<close> returns the difference from the start to the next clock reading
  when the stopwatch is running, and from the start to the stored end when it is not,
  truncated towards zero to the requested resolution. In a state reached under a clock that
  never decreases the difference, and with it the returned duration, is not negative.
\<close>

theorem elapsed_value:
  assumes "is_period Period"
    and "ratio_divide nanoseconds_period Period = Inr cf"
    and "representable (time_difference this clock)"
    and "representable (time_difference this clock * num cf)"
  shows "fst (elapsed Period this clock) =
           Inr ((time_difference this clock * den Period) sdiv (1000000000 * num Period)) \<and>
         (mono clock0 \<and> reachable clock0 (this, clock) \<longrightarrow>
            0 \<le> time_difference this clock \<and>
            0 \<le> (time_difference this clock * den Period) sdiv (1000000000 * num Period))"
proof -
  let ?diff = "time_difference this clock"
  from assms(1) have A: "0 < den Period" and B: "0 < 1000000000 * num Period"
    by (simp_all add: is_period_def)
  from ratio_divide_Inr [OF assms(2)]
  have cf: "cf = std_ratio (den Period) (1000000000 * num Period)" by (simp add: unit_periods)
  have "fst (elapsed Period this clock) = duration_cast Period nanoseconds_period ?diff"
    using assms(3) by (simp add: elapsed_fst checked_def)
  also have "\<dots> = Inr ((?diff * num cf) sdiv den cf)"
    by (rule duration_cast_total [OF assms(2,4)])
  also have "(?diff * num cf) sdiv den cf = (?diff * den Period) sdiv (1000000000 * num Period)"
    unfolding cf by (rule std_ratio_sdiv [OF A B])
  finally have returned: "fst (elapsed Period this clock) =
      Inr ((?diff * den Period) sdiv (1000000000 * num Period))" .
  have "0 \<le> ?diff \<and> 0 \<le> (?diff * den Period) sdiv (1000000000 * num Period)"
    if "mono clock0" "reachable clock0 (this, clock)"
  proof -
    from reachable_ordered [OF that(2,1)]
    have "startTime this \<le> endTime this" "endTime this \<le> clock 0" by simp_all
    then have diff: "0 \<le> ?diff" by (simp add: time_difference_def now_def)
    then have prod: "0 \<le> ?diff * den Period" using A by simp
    then have "(?diff * den Period) sdiv (1000000000 * num Period)
        = (?diff * den Period) div (1000000000 * num Period)"
      using B by (rule sdiv_nonneg)
    moreover have "0 \<le> (?diff * den Period) div (1000000000 * num Period)"
      using prod B by (simp add: pos_imp_zdiv_nonneg_iff)
    ultimately show ?thesis using diff by simp
  qed
  then show ?thesis using returned by blast
qed

theorem elapsed_value_witness:
  "is_period microseconds_period \<and>
   ratio_divide nanoseconds_period microseconds_period = Inr \<lparr>num = 1, den = 1000\<rparr> \<and>
   representable (time_difference \<lparr>ongoing = False, startTime = 0, endTime = 7000000\<rparr>
     (\<lambda>i. 7000000 * int (Suc (Suc i)))) \<and>
   mono (\<lambda>i. 7000000 * int i) \<and>
   reachable (\<lambda>i. 7000000 * int i)
     (\<lparr>ongoing = False, startTime = 0, endTime = 7000000\<rparr>, \<lambda>i. 7000000 * int (Suc (Suc i))) \<and>
   fst (elapsed microseconds_period \<lparr>ongoing = False, startTime = 0, endTime = 7000000\<rparr>
          (\<lambda>i. 7000000 * int (Suc (Suc i)))) = Inr 7000 \<and>
   (0::int) \<le> 7000"
proof -
  let ?origin = "\<lambda>i. 7000000 * int i"
  let ?watch = "\<lparr>ongoing = False, startTime = 0, endTime = 7000000\<rparr>"
  let ?later = "\<lambda>i. 7000000 * int (Suc (Suc i))"
  have p: "is_period microseconds_period" by (simp add: is_period_def unit_periods)
  have mn: "mono ?origin" by (simp add: mono_def)
  have "reachable ?origin (start \<lparr>ongoing = False, startTime = 0, endTime = 0\<rparr> ?origin)"
    by (rule reachable.constructed)
  then have "reachable ?origin (\<lparr>ongoing = True, startTime = 0, endTime = 0\<rparr>, \<lambda>i. 7000000 * int (Suc i))"
    by (simp add: start_def now_def)
  then have "reachable ?origin (stop \<lparr>ongoing = True, startTime = 0, endTime = 0\<rparr> (\<lambda>i. 7000000 * int (Suc i)))"
    by (rule reachable.stopped)
  then have r: "reachable ?origin (?watch, ?later)"
    by (simp add: stop_def now_def)
  have rd: "ratio_divide nanoseconds_period microseconds_period = Inr \<lparr>num = 1, den = 1000\<rparr>"
    by (intro ratio_divide_eq [where g = 1000000])
      (simp_all add: unit_periods representable_def INTMAX_MIN_def INTMAX_MAX_def)
  have td: "time_difference ?watch ?later = 7000000" by (simp add: time_difference_def)
  have fit: "representable (time_difference ?watch ?later)"
    "representable (time_difference ?watch ?later * num \<lparr>num = 1, den = 1000\<rparr>)"
    by (simp_all add: time_difference_def representable_def INTMAX_MIN_def INTMAX_MAX_def)
  have "(7000000 * den microseconds_period) sdiv (1000000000 * num microseconds_period) = 7000"
    by (simp add: unit_periods signed_divide_int_def)
  then have "fst (elapsed microseconds_period ?watch ?later) = Inr 7000"
    using elapsed_value [OF p rd fit, of ?origin] td by simp
  then show ?thesis using p rd fit(1) mn r by simp
qed

text \<open>
  C7 as stated, for every requested resolution, fails where the product overflows. The
  stopwatch is constructed when the clock reads 0 and asked for the elapsed picoseconds when
  the clock, which never decreases, reads \<open>10 ^ 16\<close> nanoseconds (less than four months
  later): the cast multiplies the difference by 1000, the product \<open>10 ^ 19\<close> is above the
  largest 64-bit value and the call does not return the truncated difference; what two's
  complement leaves of the product is negative.
\<close>

theorem elapsed_overflows:
  "is_period (std_ratio 1 1000000000000) \<and>
   mono ((*) 10000000000000000 \<circ> int) \<and>
   reachable ((*) 10000000000000000 \<circ> int)
     (start \<lparr>ongoing = False, startTime = 0, endTime = 0\<rparr> ((*) 10000000000000000 \<circ> int)) \<and>
   time_difference
     (fst (start \<lparr>ongoing = False, startTime = 0, endTime = 0\<rparr> ((*) 10000000000000000 \<circ> int)))
     (snd (start \<lparr>ongoing = False, startTime = 0, endTime = 0\<rparr> ((*) 10000000000000000 \<circ> int)))
     = 10000000000000000 \<and>
   fst (elapsed (std_ratio 1 1000000000000)
     (fst (start \<lparr>ongoing = False, startTime = 0, endTime = 0\<rparr> ((*) 10000000000000000 \<circ> int)))
     (snd (start \<lparr>ongoing = False, startTime = 0, endTime = 0\<rparr> ((*) 10000000000000000 \<circ> int))))
     = Inl Overflow \<and>
   intmax_wrap (10000000000000000 * 1000) = - 8446744073709551616"
proof -
  let ?pico = "std_ratio 1 1000000000000"
  let ?origin = "(*) 10000000000000000 \<circ> int"
  let ?new = "\<lparr>ongoing = False, startTime = 0, endTime = 0\<rparr>"
  have members: "num ?pico = 1" "den ?pico = 1000000000000"
    by (simp_all add: std_ratio_unit_fraction)
  have p: "is_period ?pico" by (simp add: is_period_def members)
  have mn: "mono ?origin" by (simp add: mono_def)
  have r: "reachable ?origin (start ?new ?origin)" by (rule reachable.constructed)
  have td: "time_difference (fst (start ?new ?origin)) (snd (start ?new ?origin)) = 10000000000000000"
    by (simp add: time_difference_def start_def now_def)
  have rd: "ratio_divide nanoseconds_period ?pico = Inr \<lparr>num = 1000, den = 1\<rparr>"
    by (intro ratio_divide_eq [where g = 1000000000])
      (simp_all add: unit_periods members representable_def INTMAX_MIN_def INTMAX_MAX_def)
  have "duration_cast ?pico nanoseconds_period 10000000000000000 = Inl Overflow"
    by (simp add: duration_cast_def rd checked_def representable_def INTMAX_MIN_def INTMAX_MAX_def)
  then have e: "fst (elapsed ?pico (fst (start ?new ?origin)) (snd (start ?new ?origin))) = Inl Overflow"
    by (simp add: elapsed_fst td checked_def representable_def INTMAX_MIN_def INTMAX_MAX_def)
  have w: "intmax_wrap (10000000000000000 * 1000) = - 8446744073709551616"
    by (simp add: intmax_wrap_def)
  show ?thesis using p mn r td e w by blast
qed

text \<open>
  C8. In the state that \<open>stop\<close> leaves, \<open>elapsed\<close> and \<open>getEndTime\<close> do not read the clock:
  they leave it as it is, and their results are the same whatever the clock would say,
  namely the cast of the stored end minus the stored start, and the stored end. The state
  itself is not changed by either, so any two calls before the next \<open>start\<close> or \<open>stop\<close>
  agree.
\<close>

theorem stopped_queries_stable:
  "let this = fst (stop this0 clock0) in
     fst (elapsed Period this clock1) = fst (elapsed Period this clock2) \<and>
     fst (getEndTime this clock1) = fst (getEndTime this clock2) \<and>
     snd (elapsed Period this clock1) = clock1 \<and>
     snd (getEndTime this clock1) = clock1 \<and>
     fst (elapsed Period this clock1) =
       and_then (checked (endTime this - startTime this)) (duration_cast Period nanoseconds_period) \<and>
     fst (getEndTime this clock1) = endTime this \<and>
     startTime this = startTime this0 \<and>
     endTime this = fst (now clock0) \<and>
     \<not> ongoing this"
  by (simp add: Let_def stop_def now_def elapsed_def getEndTime_def)

end
